theory Spec2Isabelle
  imports Complex_Main "HOL-Library.Word" "HOL-Library.Signed_Division" "HOL-Library.Multiset"
    "HOL-Library.List_Lexorder"
    "HOL-Library.Char_ord"
begin

section \<open>Go values, pointers and JSON documents\<close>

text \<open>
  A Go \<open>interface{}\<close> holding a toggle variation or a caller default: its dynamic type is
  the constructor. \<open>'f\<close> stands for \<open>float64\<close>; the code never does arithmetic on one, it
  only stores, type-asserts and passes them on. Go's \<open>int\<close> is modelled by \<open>int\<close>: the code
  only copies such values (the one addition, in \<open>buildCounters\<close>, is on a discarded copy).
  A slice and a map are nil (\<open>GNilSlice\<close>, \<open>GNilMap\<close>) or hold their elements; a map holds
  one entry per key.
\<close>

datatype 'f gvalue =
    GNil
  | GBool bool
  | GString string
  | GFloat64 'f
  | GInt int
  | GNilSlice
  | GSlice "'f gvalue list"
  | GNilMap
  | GMap "(string \<times> 'f gvalue) list"

text \<open>
  A Go pointer (\<open>*int\<close>, \<open>*uint64\<close>): nil, or an address together with the value stored
  there (the code never writes through these pointers). Go's \<open>==\<close> on pointers, which is
  also the equality of map keys that contain pointers, compares addresses only.
\<close>

datatype 'a ptr = NilPtr | Ptr nat 'a

fun ptr_eq :: "'a ptr \<Rightarrow> 'a ptr \<Rightarrow> bool" where
  "ptr_eq NilPtr NilPtr = True"
| "ptr_eq (Ptr a x) (Ptr b y) = (a = b)"
| "ptr_eq p q = False"

type_synonym int64 = "64 word"
type_synonym uint64 = "64 word"

text \<open>The document tree that \<open>encoding/json\<close> writes out.\<close>

datatype 'f json =
    JNull
  | JBool bool
  | JInt int
  | JFloat 'f
  | JString string
  | JArray "'f json list"
  | JObject "(string \<times> 'f json) list"

section \<open>event.go: the data\<close>

record 'f AccessEvent =
  ev_Time :: int64
  ev_Key :: string
  ev_Value :: "'f gvalue"
  ev_Index :: "int ptr"
  ev_Version :: "uint64 ptr"
  ev_Reason :: string

record 'f ToggleCounter =
  tc_Value :: "'f gvalue"
  tc_Version :: "uint64 ptr"
  tc_Index :: "int ptr"
  tc_Count :: int

record 'f Access =
  StartTime :: int64
  EndTime :: int64
  Counters :: "(string \<times> 'f ToggleCounter list) list"

record 'f PackedData =
  Events :: "'f AccessEvent list"
  Access :: "'f Access"

record Variation =
  var_Key :: string
  var_Index :: "int ptr"
  var_Version :: "uint64 ptr"

record 'f CountValue =
  cv_Count :: int
  cv_Value :: "'f gvalue"

datatype panic = NilPointerDereference | NonPositiveTickerInterval

text \<open>
  Equality of two \<open>Variation\<close> map keys: the strings by content, the two pointers by
  address.
\<close>

definition same_Variation :: "Variation \<Rightarrow> Variation \<Rightarrow> bool" where
  "same_Variation v w =
     (var_Key v = var_Key w \<and> ptr_eq (var_Index v) (var_Index w)
      \<and> ptr_eq (var_Version v) (var_Version w))"

text \<open>
  \<open>map[Variation]CountValue\<close> as an association list with one entry per key, looked up
  with the key equality above. The list order is the insertion order and means nothing
  to Go: \<open>range\<close> over the map is taken as a parameter where it is used.
\<close>

fun counters_lookup :: "Variation \<Rightarrow> (Variation \<times> 'v) list \<Rightarrow> 'v option" where
  "counters_lookup v [] = None"
| "counters_lookup v ((k, c) # rest) =
     (if same_Variation k v then Some c else counters_lookup v rest)"

section \<open>event.go: buildCounters\<close>

text \<open>
  The loop takes \<open>&event.Time\<close>, the address of a field of the loop variable, so the
  model keeps the loop variable's \<open>Time\<close> field in a store of cells. Which cell iteration
  \<open>i\<close> writes depends on the language version of the module (its \<open>go.mod\<close> is not among
  the sources): before Go 1.22 one variable is shared by all iterations, from Go 1.22 on
  every iteration has a fresh one.
\<close>

datatype loopvar = SharedLoopVar | PerIterationLoopVar

fun event_cell :: "loopvar \<Rightarrow> nat \<Rightarrow> nat" where
  "event_cell SharedLoopVar i = 0"
| "event_cell PerIterationLoopVar i = i"

record 'f counters_state =
  loc_cells :: "nat \<Rightarrow> int64"
  loc_startTime :: "nat option"
  loc_endTime :: "nat option"
  loc_counters :: "(Variation \<times> 'f CountValue) list"

definition buildCounters_body ::
  "loopvar \<Rightarrow> nat \<Rightarrow> 'f AccessEvent \<Rightarrow> 'f counters_state \<Rightarrow> 'f counters_state" where
  "buildCounters_body lv i event s =
     (let a = event_cell lv i;
          mem = (loc_cells s)(a := ev_Time event);
          st = (case loc_startTime s of
                  None \<Rightarrow> Some a
                | Some p \<Rightarrow> if mem p <s ev_Time event then Some a else Some p);
          en = (case loc_endTime s of
                  None \<Rightarrow> Some a
                | Some p \<Rightarrow> if ev_Time event <s mem p then Some a else Some p);
          v = \<lparr>var_Key = ev_Key event, var_Index = ev_Index event,
               var_Version = ev_Version event\<rparr>;
          cs = (case counters_lookup v (loc_counters s) of
                  None \<Rightarrow> loc_counters s @ [(v, \<lparr>cv_Count = 1, cv_Value = ev_Value event\<rparr>)]
                | Some c \<Rightarrow> (let c' = c\<lparr>cv_Count := cv_Count c + 1\<rparr> in loc_counters s))
      in \<lparr>loc_cells = mem, loc_startTime = st, loc_endTime = en, loc_counters = cs\<rparr>)"

fun buildCounters_loop ::
  "loopvar \<Rightarrow> nat \<Rightarrow> 'f AccessEvent list \<Rightarrow> 'f counters_state \<Rightarrow> 'f counters_state" where
  "buildCounters_loop lv i [] s = s"
| "buildCounters_loop lv i (event # events) s =
     buildCounters_loop lv (Suc i) events (buildCounters_body lv i event s)"

definition buildCounters ::
  "loopvar \<Rightarrow> 'f AccessEvent list
   \<Rightarrow> panic + ((Variation \<times> 'f CountValue) list \<times> int64 \<times> int64)" where
  "buildCounters lv events =
     (let s = buildCounters_loop lv 0 events
                \<lparr>loc_cells = (\<lambda>_. 0), loc_startTime = None, loc_endTime = None,
                  loc_counters = []\<rparr>
      in case loc_startTime s of
           None \<Rightarrow> Inl NilPointerDereference
         | Some p \<Rightarrow>
             (case loc_endTime s of
                None \<Rightarrow> Inl NilPointerDereference
              | Some q \<Rightarrow> Inr (loc_counters s, loc_cells s p, loc_cells s q)))"

section \<open>event.go: buildAccess and buildPackedData\<close>

text \<open>
  \<open>access.Counters\<close>, a \<open>map[string][]ToggleCounter\<close>, as an association list with one
  entry per toggle key. \<open>add_counter\<close> is the body of the \<open>range\<close> loop: the first counter
  of a key starts its slice, a later one is appended.
\<close>

fun add_counter ::
  "string \<Rightarrow> 'c \<Rightarrow> (string \<times> 'c list) list \<Rightarrow> (string \<times> 'c list) list" where
  "add_counter key counter [] = [(key, [counter])]"
| "add_counter key counter ((k, c) # rest) =
     (if k = key then (k, c @ [counter]) # rest else (k, c) # add_counter key counter rest)"

definition buildAccess_body ::
  "Variation \<times> 'f CountValue \<Rightarrow> 'f Access \<Rightarrow> 'f Access" where
  "buildAccess_body kv access =
     (let k = fst kv; v = snd kv;
          counter = \<lparr>tc_Value = cv_Value v, tc_Version = var_Version k,
                     tc_Index = var_Index k, tc_Count = cv_Count v\<rparr>
      in access\<lparr>Counters := add_counter (var_Key k) counter (Counters access)\<rparr>)"

text \<open>
  \<open>range_order\<close> is the order in which the Go runtime enumerates the map \<open>counters\<close>
  (unspecified by the language): it maps the entries to the sequence the loop visits.
\<close>

definition buildAccess ::
  "loopvar \<Rightarrow> ((Variation \<times> 'f CountValue) list \<Rightarrow> (Variation \<times> 'f CountValue) list)
   \<Rightarrow> 'f AccessEvent list \<Rightarrow> panic + 'f Access" where
  "buildAccess lv range_order events =
     (case buildCounters lv events of
        Inl p \<Rightarrow> Inl p
      | Inr (counters, startTime, endTime) \<Rightarrow>
          Inr (fold buildAccess_body (range_order counters)
                 \<lparr>StartTime = startTime, EndTime = endTime, Counters = []\<rparr>))"

definition buildPackedData ::
  "loopvar \<Rightarrow> ((Variation \<times> 'f CountValue) list \<Rightarrow> (Variation \<times> 'f CountValue) list)
   \<Rightarrow> 'f AccessEvent list \<Rightarrow> panic + 'f PackedData list" where
  "buildPackedData lv range_order events =
     (case buildAccess lv range_order events of
        Inl p \<Rightarrow> Inl p
      | Inr access \<Rightarrow> Inr [\<lparr>Events = events, Access = access\<rparr>])"

section \<open>encoding/json on the types of event.go\<close>

text \<open>
  \<open>json.Marshal\<close> as far as the document tree: a struct is an object with its fields in
  declaration order under their \<open>json\<close> tags, a slice is an array, a map is an object with
  its keys sorted, a nil pointer, a nil slice and a nil map are \<open>null\<close>, and any other
  pointer is its pointee. Two things are the library's and are parameters:
  \<^item> \<open>fin\<close> says which \<open>float64\<close> values JSON can write (not NaN, not an infinity); any
    other one is the only failure that these types allow;
  \<^item> \<open>str\<close> is the text that the encoder writes for a Go string: the string itself when
    it is valid UTF-8, and otherwise the string with every invalid byte replaced by
    U+FFFD. Map keys are sorted as the Go strings they are and written through \<open>str\<close>.
\<close>

fun Marshal_value ::
  "('f \<Rightarrow> bool) \<Rightarrow> (string \<Rightarrow> string) \<Rightarrow> 'f gvalue \<Rightarrow> 'f json option" where
  "Marshal_value fin str GNil = Some JNull"
| "Marshal_value fin str (GBool b) = Some (JBool b)"
| "Marshal_value fin str (GString s) = Some (JString (str s))"
| "Marshal_value fin str (GFloat64 x) = (if fin x then Some (JFloat x) else None)"
| "Marshal_value fin str (GInt i) = Some (JInt i)"
| "Marshal_value fin str GNilSlice = Some JNull"
| "Marshal_value fin str (GSlice xs) =
     map_option JArray (those (map (Marshal_value fin str) xs))"
| "Marshal_value fin str GNilMap = Some JNull"
| "Marshal_value fin str (GMap kvs) =
     map_option (\<lambda>fields. JObject (map (\<lambda>kj. (str (fst kj), snd kj)) (sort_key fst fields)))
       (those (map (\<lambda>kv. map_option (Pair (fst kv)) (Marshal_value fin str (snd kv))) kvs))"

fun Marshal_int_ptr :: "int ptr \<Rightarrow> 'f json" where
  "Marshal_int_ptr NilPtr = JNull"
| "Marshal_int_ptr (Ptr a i) = JInt i"

fun Marshal_uint64_ptr :: "uint64 ptr \<Rightarrow> 'f json" where
  "Marshal_uint64_ptr NilPtr = JNull"
| "Marshal_uint64_ptr (Ptr a w) = JInt (uint w)"

definition Marshal_AccessEvent ::
  "('f \<Rightarrow> bool) \<Rightarrow> (string \<Rightarrow> string) \<Rightarrow> 'f AccessEvent \<Rightarrow> 'f json option" where
  "Marshal_AccessEvent fin str e =
     map_option
       (\<lambda>v. JObject [(''time'', JInt (sint (ev_Time e))), (''key'', JString (str (ev_Key e))),
                      (''value'', v), (''index'', Marshal_int_ptr (ev_Index e)),
                      (''version'', Marshal_uint64_ptr (ev_Version e)),
                      (''reason'', JString (str (ev_Reason e)))])
       (Marshal_value fin str (ev_Value e))"

definition Marshal_ToggleCounter ::
  "('f \<Rightarrow> bool) \<Rightarrow> (string \<Rightarrow> string) \<Rightarrow> 'f ToggleCounter \<Rightarrow> 'f json option" where
  "Marshal_ToggleCounter fin str c =
     map_option
       (\<lambda>v. JObject [(''value'', v), (''version'', Marshal_uint64_ptr (tc_Version c)),
                      (''index'', Marshal_int_ptr (tc_Index c)), (''count'', JInt (tc_Count c))])
       (Marshal_value fin str (tc_Value c))"

text \<open>
  The map \<open>Counters\<close> is never nil (\<open>buildAccess\<close> creates it), and each of its slices holds
  at least one counter.
\<close>

definition Marshal_Counters ::
  "('f \<Rightarrow> bool) \<Rightarrow> (string \<Rightarrow> string) \<Rightarrow> (string \<times> 'f ToggleCounter list) list
   \<Rightarrow> 'f json option" where
  "Marshal_Counters fin str m =
     map_option JObject
       (those (map (\<lambda>kv. map_option (\<lambda>cs. (str (fst kv), JArray cs))
                            (those (map (Marshal_ToggleCounter fin str) (snd kv))))
                 (sort_key fst m)))"

definition Marshal_Access ::
  "('f \<Rightarrow> bool) \<Rightarrow> (string \<Rightarrow> string) \<Rightarrow> 'f Access \<Rightarrow> 'f json option" where
  "Marshal_Access fin str a =
     map_option
       (\<lambda>c. JObject [(''startTime'', JInt (sint (StartTime a))),
                      (''endTime'', JInt (sint (EndTime a))), (''counters'', c)])
       (Marshal_Counters fin str (Counters a))"

text \<open>
  The slice \<open>Events\<close> is the batch that \<open>doFlush\<close> drained: it is not nil, so it is written
  as an array.
\<close>

definition Marshal_PackedData ::
  "('f \<Rightarrow> bool) \<Rightarrow> (string \<Rightarrow> string) \<Rightarrow> 'f PackedData \<Rightarrow> 'f json option" where
  "Marshal_PackedData fin str p =
     (case those (map (Marshal_AccessEvent fin str) (Events p)) of
        None \<Rightarrow> None
      | Some es \<Rightarrow>
          (case Marshal_Access fin str (Access p) of
             None \<Rightarrow> None
           | Some a \<Rightarrow> Some (JObject [(''events'', JArray es), (''access'', a)])))"

definition Marshal ::
  "('f \<Rightarrow> bool) \<Rightarrow> (string \<Rightarrow> string) \<Rightarrow> 'f PackedData list \<Rightarrow> 'f json option" where
  "Marshal fin str packedData =
     map_option JArray (those (map (Marshal_PackedData fin str) packedData))"

section \<open>event.go: the recorder\<close>

text \<open>
  \<open>stopChan\<close> carries no values: it is nil, open or closed. The flush loop is the goroutine
  that \<open>Start\<close> launches.
\<close>

datatype chan = NilChan | OpenChan | ClosedChan

datatype goroutine = NotLaunched | Running | Returned | Panicked

record 'f request =
  req_url :: string
  req_headers :: "(string \<times> string) list"
  req_body :: "'f json option"

text \<open>
  The struct's fields, with \<open>wg\<close> the counter of the \<open>sync.WaitGroup\<close>, \<open>startOnce\<close> and
  \<open>stopOnce\<close> whether the \<open>sync.Once\<close> has fired, and \<open>ticker\<close> the period of the ticker
  (\<open>None\<close> for nil). The mutex is the atomicity of each step of the model. Two components
  stand for what lives outside the struct: \<open>flushLoop\<close>, the state of the goroutine, and
  \<open>posted\<close>, the requests handed to \<open>httpClient.Do\<close>, oldest first.
\<close>

record 'f EventRecorder =
  auth :: string
  eventsUrl :: string
  flushInterval :: int64
  incomingEvents :: "'f AccessEvent list"
  packedData :: "'f PackedData list"
  wg :: int
  startOnce :: bool
  stopOnce :: bool
  stopChan :: chan
  ticker :: "int64 option"
  flushLoop :: goroutine
  posted :: "'f request list"

text \<open>
  What the Go toolchain and the libraries decide for \<open>doFlush\<close>: the loop-variable
  semantics, the enumeration order of \<open>range\<close> over a map, which floats \<open>encoding/json\<close>
  can write, the text it writes for a string, and which URLs \<open>http.NewRequest\<close> accepts.
\<close>

record 'f go_env =
  env_loopvar :: loopvar
  env_range_order :: "(Variation \<times> 'f CountValue) list \<Rightarrow> (Variation \<times> 'f CountValue) list"
  env_json_float :: "'f \<Rightarrow> bool"
  env_json_string :: "string \<Rightarrow> string"
  env_valid_url :: "string \<Rightarrow> bool"

definition USER_AGENT :: string where
  "USER_AGENT = ''Go/'' @ ''1.1.0''"

definition NewEventRecorder :: "string \<Rightarrow> int64 \<Rightarrow> string \<Rightarrow> 'f EventRecorder" where
  "NewEventRecorder eventsUrl' flushInterval' auth' =
     \<lparr>auth = auth', eventsUrl = eventsUrl', flushInterval = flushInterval',
      incomingEvents = [], packedData = [], wg = 0, startOnce = False, stopOnce = False,
      stopChan = OpenChan, ticker = None, flushLoop = NotLaunched, posted = []\<rparr>"

text \<open>
  \<open>Start\<close>: \<open>wg.Add(1)\<close> on every call, then the body of \<open>startOnce.Do\<close> on the first one.
  \<open>time.NewTicker\<close> panics on a period that is not positive; the period is
  \<open>flushInterval * time.Millisecond\<close> in \<open>int64\<close>.
\<close>

definition Start :: "'f EventRecorder \<Rightarrow> panic + 'f EventRecorder" where
  "Start e =
     (let e1 = e\<lparr>wg := wg e + 1\<rparr>
      in if startOnce e1 then Inr e1
         else (let d = flushInterval e1 * 1000000
               in if d \<le>s 0 then Inl NonPositiveTickerInterval
                  else Inr (e1\<lparr>startOnce := True, ticker := Some d, flushLoop := Running\<rparr>)))"

definition RecordAccess :: "'f AccessEvent \<Rightarrow> 'f EventRecorder \<Rightarrow> 'f EventRecorder" where
  "RecordAccess event e = e\<lparr>incomingEvents := incomingEvents e @ [event]\<rparr>"

text \<open>
  \<open>doFlush\<close>: swap the pending list for an empty one; nothing more on an empty batch;
  otherwise pack, marshal (an error of \<open>json.Marshal\<close> is dropped and leaves an empty body,
  \<open>None\<close>), build the request (an error returns early) and hand it to the client.
\<close>

definition doFlush :: "'f go_env \<Rightarrow> 'f EventRecorder \<Rightarrow> panic + 'f EventRecorder" where
  "doFlush env e =
     (let events = incomingEvents e;
          e1 = e\<lparr>incomingEvents := []\<rparr>
      in if length events = 0 then Inr e1
         else (case buildPackedData (env_loopvar env) (env_range_order env) events of
                 Inl p \<Rightarrow> Inl p
               | Inr packedData' \<Rightarrow>
                   (let body = Marshal (env_json_float env) (env_json_string env) packedData'
                    in if env_valid_url env (eventsUrl e1)
                       then Inr (e1\<lparr>posted := posted e1 @
                              [\<lparr>req_url = eventsUrl e1,
                                req_headers = [(''Authorization'', auth e1),
                                               (''Content-Type'', ''application/json''),
                                               (''User-Agent'', USER_AGENT)],
                                req_body = body\<rparr>]\<rparr>)
                       else Inr e1)))"

text \<open>
  One turn of the goroutine's \<open>select\<close>. \<open>TickerCase\<close> is the branch \<open>case <-e.ticker.C\<close>,
  \<open>StopCase\<close> the branch \<open>case <-e.stopChan\<close>, which can only be taken once the channel is
  closed (nothing is ever sent on it). A choice that cannot be taken leaves the state as
  it is.
\<close>

datatype select_case = TickerCase | StopCase

definition flush_loop_turn ::
  "'f go_env \<Rightarrow> select_case \<Rightarrow> 'f EventRecorder \<Rightarrow> 'f EventRecorder" where
  "flush_loop_turn env c e =
     (if flushLoop e = Running
      then (case c of
              TickerCase \<Rightarrow>
                (case doFlush env e of
                   Inl p \<Rightarrow> e\<lparr>flushLoop := Panicked\<rparr>
                 | Inr e1 \<Rightarrow> e1)
            | StopCase \<Rightarrow>
                if stopChan e = ClosedChan
                then (case doFlush env e of
                        Inl p \<Rightarrow> e\<lparr>flushLoop := Panicked\<rparr>
                      | Inr e1 \<Rightarrow> e1\<lparr>wg := wg e1 - 1, flushLoop := Returned\<rparr>)
                else e)
      else e)"

text \<open>
  \<open>Stop\<close>: close the channel once, then \<open>wg.Wait()\<close>. While the caller waits the goroutine
  takes the turns of \<open>sched\<close>; \<open>Wait\<close> returns as soon as the counter is zero. The result is
  \<open>None\<close> when the caller is still blocked after all of \<open>sched\<close>.
\<close>

definition Stop_close :: "'f EventRecorder \<Rightarrow> 'f EventRecorder" where
  "Stop_close e =
     (if stopChan e = NilChan then e
      else if stopOnce e then e
      else e\<lparr>stopOnce := True, stopChan := ClosedChan\<rparr>)"

fun wg_Wait ::
  "'f go_env \<Rightarrow> select_case list \<Rightarrow> 'f EventRecorder \<Rightarrow> 'f EventRecorder option" where
  "wg_Wait env [] e = (if wg e = 0 then Some e else None)"
| "wg_Wait env (c # sched) e =
     (if wg e = 0 then Some e else wg_Wait env sched (flush_loop_turn env c e))"

definition Stop ::
  "'f go_env \<Rightarrow> select_case list \<Rightarrow> 'f EventRecorder \<Rightarrow> 'f EventRecorder option" where
  "Stop env sched e = wg_Wait env sched (Stop_close e)"

section \<open>featureprobe.go: configuration\<close>

record FPConfig =
  RemoteUrl :: string
  TogglesUrl :: string
  EventsUrl :: string
  ServerSdkKey :: string
  RefreshInterval :: int
  WaitFirstResp :: bool

type_synonym Option_fn = "FPConfig \<Rightarrow> FPConfig"

definition WithTogglesUri :: "string \<Rightarrow> Option_fn" where
  "WithTogglesUri uri fpConfig = fpConfig\<lparr>TogglesUrl := RemoteUrl fpConfig @ uri\<rparr>"

definition WithEventsUri :: "string \<Rightarrow> Option_fn" where
  "WithEventsUri uri fpConfig = fpConfig\<lparr>EventsUrl := RemoteUrl fpConfig @ uri\<rparr>"

definition WithRefreshInterval :: "int \<Rightarrow> Option_fn" where
  "WithRefreshInterval interval fpConfig = fpConfig\<lparr>RefreshInterval := interval\<rparr>"

definition WithWaitFirstResp :: "bool \<Rightarrow> Option_fn" where
  "WithWaitFirstResp wait fpConfig = fpConfig\<lparr>WaitFirstResp := wait\<rparr>"

definition HasSuffix :: "string \<Rightarrow> string \<Rightarrow> bool" where
  "HasSuffix s suffix =
     (length suffix \<le> length s \<and> drop (length s - length suffix) s = suffix)"

text \<open>The configuration that \<open>NewFeatureProbe\<close> builds before it starts anything.\<close>

definition NewFeatureProbe_config :: "string \<Rightarrow> string \<Rightarrow> Option_fn list \<Rightarrow> FPConfig" where
  "NewFeatureProbe_config remoteUrl severSdkKey opts =
     (let remoteUrl' = (if HasSuffix remoteUrl ''/'' then remoteUrl else remoteUrl @ ''/'');
          fpConfig = \<lparr>RemoteUrl = remoteUrl',
                      TogglesUrl = remoteUrl' @ ''api/server-sdk/toggles'',
                      EventsUrl = remoteUrl' @ ''api/events'',
                      ServerSdkKey = severSdkKey,
                      RefreshInterval = 2000,
                      WaitFirstResp = True\<rparr>
      in fold (\<lambda>opt c. opt c) opts fpConfig)"

section \<open>featureprobe.go: the client\<close>

text \<open>
  \<open>Toggle\<close>, \<open>FPUser\<close>, the segment map and the \<open>Synchronizer\<close> are declared in files that
  are not among the sources: they are the type parameters \<open>'t\<close>, \<open>'u\<close>, \<open>'s\<close> and \<open>'y\<close>.
  A \<open>Repository\<close> has the two fields that \<open>genericDetail\<close> reads.
\<close>

record ('t, 's) Repository =
  Toggles :: "string \<rightharpoonup> 't"
  Segments :: 's

text \<open>
  Modelled from the spec: \<open>EvalDetail\<close>, whose declaration is not among the sources, is a
  value, an optional variation index, an optional rule index, an optional version and a
  reason string; these are the fields that \<open>genericDetail\<close> reads.
\<close>

record 'f EvalDetail =
  d_Value :: "'f gvalue"
  d_VariationIndex :: "int ptr"
  d_RuleIndex :: "int ptr"
  d_Version :: "uint64 ptr"
  d_Reason :: string

record ('f, 't, 's, 'y) FeatureProbe =
  Config :: FPConfig
  Repo :: "('t, 's) Repository option"
  Syncer :: "'y option"
  Recorder :: "'f EventRecorder option"

record FPBoolDetail =
  bd_Value :: bool
  bd_RuleIndex :: "int ptr"
  bd_Version :: "uint64 ptr"
  bd_Reason :: string

record 'f FPNumberDetail =
  nd_Value :: 'f
  nd_RuleIndex :: "int ptr"
  nd_Version :: "uint64 ptr"
  nd_Reason :: string

record FPStrDetail =
  sd_Value :: string
  sd_RuleIndex :: "int ptr"
  sd_Version :: "uint64 ptr"
  sd_Reason :: string

record 'f FPJsonDetail =
  jd_Value :: "'f gvalue"
  jd_RuleIndex :: "int ptr"
  jd_Version :: "uint64 ptr"
  jd_Reason :: string

text \<open>
  \<open>NewFeatureProbe\<close>. \<open>sync\<close> stands for \<open>NewSynchronizer\<close> followed by its \<open>Start\<close>, whose
  code is not among the sources: from the toggles URL, the timeout, the key and the wait
  flag it gives the synchronizer and the repository it has filled so far.
  \<open>time.Duration(fpConfig.RefreshInterval)\<close> converts a Go \<open>int\<close> to \<open>int64\<close>.
\<close>

definition NewFeatureProbe ::
  "(string \<Rightarrow> int64 \<Rightarrow> string \<Rightarrow> bool \<Rightarrow> 'y \<times> ('t, 's) Repository)
   \<Rightarrow> string \<Rightarrow> string \<Rightarrow> Option_fn list \<Rightarrow> panic + ('f, 't, 's, 'y) FeatureProbe" where
  "NewFeatureProbe sync remoteUrl severSdkKey opts =
     (let fpConfig = NewFeatureProbe_config remoteUrl severSdkKey opts;
          timeout = (word_of_int (RefreshInterval fpConfig) :: int64)
      in case Start (NewEventRecorder (EventsUrl fpConfig) timeout (ServerSdkKey fpConfig)) of
           Inl p \<Rightarrow> Inl p
         | Inr eventRecorder \<Rightarrow>
             (let started = sync (TogglesUrl fpConfig) timeout (ServerSdkKey fpConfig)
                              (WaitFirstResp fpConfig)
              in Inr \<lparr>Config = fpConfig, Repo = Some (snd started),
                      Syncer = Some (fst started), Recorder = Some eventRecorder\<rparr>))"

text \<open>
  \<open>genericDetail\<close>. \<open>evalDetail\<close> is the method \<open>Toggle.evalDetail\<close>, whose code is not among
  the sources; it returns the detail and the error (\<open>None\<close> for nil). \<open>nanos\<close> is the reading
  of \<open>time.Now().UnixNano()\<close>. The client with its recorder updated is returned beside the
  four results.
\<close>

definition genericDetail ::
  "('t \<Rightarrow> 'u \<Rightarrow> 's \<Rightarrow> 'f EvalDetail \<times> string option) \<Rightarrow> int64
   \<Rightarrow> ('f, 't, 's, 'y) FeatureProbe \<Rightarrow> string \<Rightarrow> 'u \<Rightarrow> 'f gvalue
   \<Rightarrow> ('f gvalue \<times> int ptr \<times> uint64 ptr \<times> string) \<times> ('f, 't, 's, 'y) FeatureProbe" where
  "genericDetail evalDetail nanos fp toggle user defaultValue =
     (let reason = ''Toggle:['' @ toggle @ ''] not exist''
      in case Repo fp of
           None \<Rightarrow> ((defaultValue, NilPtr, NilPtr, reason), fp)
         | Some repo \<Rightarrow>
             (case Toggles repo toggle of
                None \<Rightarrow> ((defaultValue, NilPtr, NilPtr, reason), fp)
              | Some t \<Rightarrow>
                  (let res = evalDetail t user (Segments repo);
                       detail = fst res;
                       err = snd res;
                       val = (if err = None then d_Value detail else defaultValue);
                       event = \<lparr>ev_Time = word_of_int (sint nanos sdiv 1000000),
                                ev_Key = toggle, ev_Value = val,
                                ev_Index = d_VariationIndex detail,
                                ev_Version = d_Version detail,
                                ev_Reason = d_Reason detail\<rparr>;
                       fp1 = (case Recorder fp of
                                None \<Rightarrow> fp
                              | Some r \<Rightarrow> fp\<lparr>Recorder := Some (RecordAccess event r)\<rparr>)
                   in ((val, d_RuleIndex detail, d_Version detail, d_Reason detail), fp1))))"

text \<open>
  The value accessors. A failed type assertion \<open>val.(T)\<close> is the default branch of the
  \<open>case\<close>. \<open>float64_of_int\<close> is Go's conversion \<open>float64(i)\<close>.
\<close>

definition BoolValue ::
  "('t \<Rightarrow> 'u \<Rightarrow> 's \<Rightarrow> 'f EvalDetail \<times> string option) \<Rightarrow> int64
   \<Rightarrow> ('f, 't, 's, 'y) FeatureProbe \<Rightarrow> string \<Rightarrow> 'u \<Rightarrow> bool
   \<Rightarrow> bool \<times> ('f, 't, 's, 'y) FeatureProbe" where
  "BoolValue evalDetail nanos fp toggle user defaultValue =
     (let g = genericDetail evalDetail nanos fp toggle user (GBool defaultValue)
      in (case fst (fst g) of GBool r \<Rightarrow> r | _ \<Rightarrow> defaultValue, snd g))"

definition StrValue ::
  "('t \<Rightarrow> 'u \<Rightarrow> 's \<Rightarrow> 'f EvalDetail \<times> string option) \<Rightarrow> int64
   \<Rightarrow> ('f, 't, 's, 'y) FeatureProbe \<Rightarrow> string \<Rightarrow> 'u \<Rightarrow> string
   \<Rightarrow> string \<times> ('f, 't, 's, 'y) FeatureProbe" where
  "StrValue evalDetail nanos fp toggle user defaultValue =
     (let g = genericDetail evalDetail nanos fp toggle user (GString defaultValue)
      in (case fst (fst g) of GString r \<Rightarrow> r | _ \<Rightarrow> defaultValue, snd g))"

definition NumberValue ::
  "(int \<Rightarrow> 'f) \<Rightarrow> ('t \<Rightarrow> 'u \<Rightarrow> 's \<Rightarrow> 'f EvalDetail \<times> string option) \<Rightarrow> int64
   \<Rightarrow> ('f, 't, 's, 'y) FeatureProbe \<Rightarrow> string \<Rightarrow> 'u \<Rightarrow> 'f
   \<Rightarrow> 'f \<times> ('f, 't, 's, 'y) FeatureProbe" where
  "NumberValue float64_of_int evalDetail nanos fp toggle user defaultValue =
     (let g = genericDetail evalDetail nanos fp toggle user (GFloat64 defaultValue)
      in (case fst (fst g) of
            GInt i \<Rightarrow> float64_of_int i
          | GFloat64 f \<Rightarrow> f
          | _ \<Rightarrow> defaultValue, snd g))"

definition JsonValue ::
  "('t \<Rightarrow> 'u \<Rightarrow> 's \<Rightarrow> 'f EvalDetail \<times> string option) \<Rightarrow> int64
   \<Rightarrow> ('f, 't, 's, 'y) FeatureProbe \<Rightarrow> string \<Rightarrow> 'u \<Rightarrow> 'f gvalue
   \<Rightarrow> 'f gvalue \<times> ('f, 't, 's, 'y) FeatureProbe" where
  "JsonValue evalDetail nanos fp toggle user defaultValue =
     (let g = genericDetail evalDetail nanos fp toggle user defaultValue
      in (fst (fst g), snd g))"

text \<open>The detail accessors.\<close>

definition BoolDetail ::
  "('t \<Rightarrow> 'u \<Rightarrow> 's \<Rightarrow> 'f EvalDetail \<times> string option) \<Rightarrow> int64
   \<Rightarrow> ('f, 't, 's, 'y) FeatureProbe \<Rightarrow> string \<Rightarrow> 'u \<Rightarrow> bool
   \<Rightarrow> FPBoolDetail \<times> ('f, 't, 's, 'y) FeatureProbe" where
  "BoolDetail evalDetail nanos fp toggle user defaultValue =
     (let g = genericDetail evalDetail nanos fp toggle user (GBool defaultValue);
          val = fst (fst g);
          ruleIndex = fst (snd (fst g));
          version = fst (snd (snd (fst g)));
          reason = snd (snd (snd (fst g)));
          detail = \<lparr>bd_Value = defaultValue, bd_RuleIndex = ruleIndex,
                    bd_Version = version, bd_Reason = reason\<rparr>
      in (case val of
            GBool b \<Rightarrow> detail\<lparr>bd_Value := b\<rparr>
          | _ \<Rightarrow> detail\<lparr>bd_Reason := ''Value type mismatch''\<rparr>, snd g))"

definition StrDetail ::
  "('t \<Rightarrow> 'u \<Rightarrow> 's \<Rightarrow> 'f EvalDetail \<times> string option) \<Rightarrow> int64
   \<Rightarrow> ('f, 't, 's, 'y) FeatureProbe \<Rightarrow> string \<Rightarrow> 'u \<Rightarrow> string
   \<Rightarrow> FPStrDetail \<times> ('f, 't, 's, 'y) FeatureProbe" where
  "StrDetail evalDetail nanos fp toggle user defaultValue =
     (let g = genericDetail evalDetail nanos fp toggle user (GString defaultValue);
          val = fst (fst g);
          ruleIndex = fst (snd (fst g));
          version = fst (snd (snd (fst g)));
          reason = snd (snd (snd (fst g)));
          detail = \<lparr>sd_Value = defaultValue, sd_RuleIndex = ruleIndex,
                    sd_Version = version, sd_Reason = reason\<rparr>
      in (case val of
            GString x \<Rightarrow> detail\<lparr>sd_Value := x\<rparr>
          | _ \<Rightarrow> detail\<lparr>sd_Reason := ''Value type mismatch''\<rparr>, snd g))"

definition NumberDetail ::
  "('t \<Rightarrow> 'u \<Rightarrow> 's \<Rightarrow> 'f EvalDetail \<times> string option) \<Rightarrow> int64
   \<Rightarrow> ('f, 't, 's, 'y) FeatureProbe \<Rightarrow> string \<Rightarrow> 'u \<Rightarrow> 'f
   \<Rightarrow> 'f FPNumberDetail \<times> ('f, 't, 's, 'y) FeatureProbe" where
  "NumberDetail evalDetail nanos fp toggle user defaultValue =
     (let g = genericDetail evalDetail nanos fp toggle user (GFloat64 defaultValue);
          val = fst (fst g);
          ruleIndex = fst (snd (fst g));
          version = fst (snd (snd (fst g)));
          reason = snd (snd (snd (fst g)));
          detail = \<lparr>nd_Value = defaultValue, nd_RuleIndex = ruleIndex,
                    nd_Version = version, nd_Reason = reason\<rparr>
      in (case val of
            GFloat64 x \<Rightarrow> detail\<lparr>nd_Value := x\<rparr>
          | _ \<Rightarrow> detail\<lparr>nd_Reason := ''Value type mismatch''\<rparr>, snd g))"

definition JsonDetail ::
  "('t \<Rightarrow> 'u \<Rightarrow> 's \<Rightarrow> 'f EvalDetail \<times> string option) \<Rightarrow> int64
   \<Rightarrow> ('f, 't, 's, 'y) FeatureProbe \<Rightarrow> string \<Rightarrow> 'u \<Rightarrow> 'f gvalue
   \<Rightarrow> 'f FPJsonDetail \<times> ('f, 't, 's, 'y) FeatureProbe" where
  "JsonDetail evalDetail nanos fp toggle user defaultValue =
     (let g = genericDetail evalDetail nanos fp toggle user defaultValue;
          val = fst (fst g);
          ruleIndex = fst (snd (fst g));
          version = fst (snd (snd (fst g)));
          reason = snd (snd (snd (fst g)))
      in (\<lparr>jd_Value = val, jd_RuleIndex = ruleIndex, jd_Version = version,
           jd_Reason = reason\<rparr>, snd g))"

text \<open>\<open>strings.Contains\<close>, as the tests use it on a reason.\<close>

fun Contains :: "string \<Rightarrow> string \<Rightarrow> bool" where
  "Contains [] substr = (substr = [])"
| "Contains (c # s) substr = (take (length substr) (c # s) = substr \<or> Contains s substr)"

section \<open>Invariants used in the proofs\<close>

text \<open>
  The state of the loop of \<open>buildCounters\<close> once the first of several copies of one event
  has been seen: one map entry with count 1, and both time pointers at cells that hold the
  event's time.
\<close>

definition one_counter :: "'f AccessEvent \<Rightarrow> 'f counters_state \<Rightarrow> bool" where
  "one_counter e s =
     (loc_counters s =
        [(\<lparr>var_Key = ev_Key e, var_Index = ev_Index e, var_Version = ev_Version e\<rparr>,
          \<lparr>cv_Count = 1, cv_Value = ev_Value e\<rparr>)]
      \<and> (\<exists>p q. loc_startTime s = Some p \<and> loc_endTime s = Some q
                 \<and> loc_cells s p = ev_Time e \<and> loc_cells s q = ev_Time e))"

text \<open>The larger and the smaller of two \<open>int64\<close> values, in the signed order.\<close>

definition smax :: "int64 \<Rightarrow> int64 \<Rightarrow> int64" where
  "smax a b = (if a <s b then b else a)"

definition smin :: "int64 \<Rightarrow> int64 \<Rightarrow> int64" where
  "smin a b = (if b <s a then b else a)"

text \<open>
  The two guards of \<open>genericDetail\<close>: the repository is not nil and holds the toggle key.
\<close>

definition toggle_found :: "('f, 't, 's, 'y) FeatureProbe \<Rightarrow> string \<Rightarrow> bool" where
  "toggle_found fp toggle =
     (case Repo fp of None \<Rightarrow> False | Some repo \<Rightarrow> Toggles repo toggle \<noteq> None)"

text \<open>
  Every value held by the counters can be written by \<open>encoding/json\<close>: for the map of
  \<open>buildCounters\<close> and for the map of \<open>buildAccess\<close>.
\<close>

definition values_encodable ::
  "('f \<Rightarrow> bool) \<Rightarrow> (string \<Rightarrow> string) \<Rightarrow> 'f counters_state \<Rightarrow> bool" where
  "values_encodable fin str s =
     (\<forall>kv \<in> set (loc_counters s). Marshal_value fin str (cv_Value (snd kv)) \<noteq> None)"

definition counters_encodable ::
  "('f \<Rightarrow> bool) \<Rightarrow> (string \<Rightarrow> string) \<Rightarrow> (string \<times> 'f ToggleCounter list) list \<Rightarrow> bool" where
  "counters_encodable fin str m =
     (\<forall>kv \<in> set m. \<forall>c \<in> set (snd kv). Marshal_value fin str (tc_Value c) \<noteq> None)"

section \<open>Example inputs\<close>

text \<open>
  A client for the concrete instances below, with \<open>float64\<close> read as \<open>real\<close>. As in
  \<open>NewFeatureProbeForTest\<close>, a toggle is given by its one variation, and evaluating it
  serves that variation by the default rule: variation index 0, no rule index, version 0.
\<close>

definition demo_recorder :: "real EventRecorder" where
  "demo_recorder = NewEventRecorder ''http://localhost/api/events'' 2000 ''sdk-key''"

definition demo_evalDetail ::
  "real gvalue \<Rightarrow> unit \<Rightarrow> unit \<Rightarrow> real EvalDetail \<times> string option" where
  "demo_evalDetail t user segments =
     (\<lparr>d_Value = t, d_VariationIndex = Ptr 1 0, d_RuleIndex = NilPtr, d_Version = Ptr 2 0,
       d_Reason = ''default''\<rparr>, None)"

definition demo_repo :: "(real gvalue, unit) Repository" where
  "demo_repo =
     \<lparr>Toggles = [''number_toggle'' \<mapsto> GFloat64 2, ''int_toggle'' \<mapsto> GInt 7],
      Segments = ()\<rparr>"

definition demo_client :: "(real, real gvalue, unit, unit) FeatureProbe" where
  "demo_client =
     \<lparr>Config = NewFeatureProbe_config ''http://localhost/'' ''sdk-key'' [],
      Repo = Some demo_repo, Syncer = None, Recorder = Some demo_recorder\<rparr>"

text \<open>An environment, and an event as a query of \<open>number_toggle\<close> records it.\<close>

definition demo_env :: "real go_env" where
  "demo_env =
     \<lparr>env_loopvar = SharedLoopVar, env_range_order = (\<lambda>m. m),
      env_json_float = (\<lambda>x. True), env_json_string = (\<lambda>s. s),
      env_valid_url = (\<lambda>u. True)\<rparr>"

definition demo_event :: "real AccessEvent" where
  "demo_event =
     \<lparr>ev_Time = 1000, ev_Key = ''number_toggle'', ev_Value = GFloat64 2, ev_Index = Ptr 1 0,
      ev_Version = Ptr 2 0, ev_Reason = ''default''\<rparr>"

section \<open>Aggregation: counters\<close>

lemma ptr_eq_refl: "ptr_eq p p"
  by (cases p) simp_all

lemma same_Variation_refl: "same_Variation v v"
  by (simp add: same_Variation_def ptr_eq_refl)

lemma one_counter_first:
  "one_counter e (buildCounters_body lv i e
      \<lparr>loc_cells = m, loc_startTime = None, loc_endTime = None, loc_counters = []\<rparr>)"
  by (simp add: one_counter_def buildCounters_body_def Let_def)

lemma one_counter_body:
  assumes "one_counter e s"
  shows "one_counter e (buildCounters_body lv i e s)"
proof -
  from assms obtain p q where
    cs: "loc_counters s =
           [(\<lparr>var_Key = ev_Key e, var_Index = ev_Index e, var_Version = ev_Version e\<rparr>,
             \<lparr>cv_Count = 1, cv_Value = ev_Value e\<rparr>)]"
    and p: "loc_startTime s = Some p" "loc_cells s p = ev_Time e"
    and q: "loc_endTime s = Some q" "loc_cells s q = ev_Time e"
    unfolding one_counter_def by blast
  let ?s' = "buildCounters_body lv i e s"
  have mem: "((loc_cells s)(event_cell lv i := ev_Time e)) p = ev_Time e"
    "((loc_cells s)(event_cell lv i := ev_Time e)) q = ev_Time e"
    using p q by simp_all
  have "loc_counters ?s' = loc_counters s"
    by (simp add: buildCounters_body_def Let_def cs same_Variation_refl)
  moreover have "loc_startTime ?s' = Some p"
    by (simp add: buildCounters_body_def Let_def p mem del: fun_upd_apply)
  moreover have "loc_endTime ?s' = Some q"
    by (simp add: buildCounters_body_def Let_def q mem del: fun_upd_apply)
  moreover have "loc_cells ?s' = (loc_cells s)(event_cell lv i := ev_Time e)"
    by (simp add: buildCounters_body_def Let_def)
  ultimately show ?thesis
    unfolding one_counter_def using cs mem by (metis (no_types))
qed

lemma one_counter_loop:
  "one_counter e s \<Longrightarrow> one_counter e (buildCounters_loop lv i (replicate n e) s)"
  by (induction n arbitrary: i s) (simp_all add: one_counter_body)

lemma buildCounters_replicate:
  "buildCounters lv (replicate (Suc n) e) =
     Inr ([(\<lparr>var_Key = ev_Key e, var_Index = ev_Index e, var_Version = ev_Version e\<rparr>,
            \<lparr>cv_Count = 1, cv_Value = ev_Value e\<rparr>)], ev_Time e, ev_Time e)"
proof -
  have "one_counter e (buildCounters_loop lv 0 (replicate (Suc n) e)
          \<lparr>loc_cells = (\<lambda>_. 0), loc_startTime = None, loc_endTime = None, loc_counters = []\<rparr>)"
    by (simp add: one_counter_first one_counter_loop)
  then show ?thesis
    unfolding buildCounters_def Let_def one_counter_def by auto
qed

text \<open>
  C1 (the code departs from the claim). The claim: N recorded events with identical
  (toggle key, variation index, version) collapse into one counter whose count is N.
  What the code does: a batch of \<open>Suc n\<close> copies of one event \<open>e\<close> (same key, same index
  pointer, same version pointer) gives one counter for the key, and its count is 1 for
  every \<open>n\<close>: \<open>c.Count += 1\<close> changes the copy \<open>c\<close> read from the map and the copy is never
  stored back. (A map with one entry has one enumeration order, written \<open>\<lambda>m. m\<close>.)
\<close>

theorem identical_events_counted_once:
  "buildAccess lv (\<lambda>m. m) (replicate (Suc n) e) =
     Inr \<lparr>StartTime = ev_Time e, EndTime = ev_Time e,
          Counters = [(ev_Key e, [\<lparr>tc_Value = ev_Value e, tc_Version = ev_Version e,
                                   tc_Index = ev_Index e, tc_Count = 1\<rparr>])]\<rparr>"
  by (simp add: buildAccess_def buildCounters_replicate buildAccess_body_def del: replicate.simps)

text \<open>
  The map key holds the two pointers, so two events that agree in key, index value and
  version value but whose pointers differ in address are counted apart.
\<close>

lemma distinct_addresses_not_merged:
  "map_sum id fst (buildCounters lv
      [e\<lparr>ev_Index := Ptr 1 0, ev_Version := Ptr 2 7\<rparr>,
       e\<lparr>ev_Index := Ptr 3 0, ev_Version := Ptr 4 7\<rparr>]) =
   Inr [(\<lparr>var_Key = ev_Key e, var_Index = Ptr 1 0, var_Version = Ptr 2 7\<rparr>,
         \<lparr>cv_Count = 1, cv_Value = ev_Value e\<rparr>),
        (\<lparr>var_Key = ev_Key e, var_Index = Ptr 3 0, var_Version = Ptr 4 7\<rparr>,
         \<lparr>cv_Count = 1, cv_Value = ev_Value e\<rparr>)]"
  by (simp add: buildCounters_def buildCounters_body_def Let_def same_Variation_def
      split: option.split)

section \<open>Aggregation: the time window\<close>

lemma fold_buildAccess_body_times:
  "StartTime (fold buildAccess_body kvs a) = StartTime a \<and>
   EndTime (fold buildAccess_body kvs a) = EndTime a"
  by (induction kvs arbitrary: a) (simp_all add: buildAccess_body_def Let_def)

lemma buildAccess_times:
  "map_sum id (\<lambda>a. (StartTime a, EndTime a)) (buildAccess lv rng events)
   = map_sum id snd (buildCounters lv events)"
  by (cases "buildCounters lv events")
    (auto simp add: buildAccess_def fold_buildAccess_body_times)

lemma buildCounters_times_shared:
  "map_sum id snd (buildCounters SharedLoopVar [e\<lparr>ev_Time := 1\<rparr>, e'\<lparr>ev_Time := 2\<rparr>])
   = Inr (2, 2)"
  by (simp add: buildCounters_def buildCounters_body_def Let_def word_sless_alt)

lemma buildCounters_times_fresh:
  "map_sum id snd (buildCounters PerIterationLoopVar [e\<lparr>ev_Time := 1\<rparr>, e'\<lparr>ev_Time := 2\<rparr>])
   = Inr (2, 1)"
  by (simp add: buildCounters_def buildCounters_body_def Let_def word_sless_alt)

text \<open>
  With a shared loop variable both pointers alias it: whatever the batch, start and end
  are the time of its last event.
\<close>

lemma shared_body:
  assumes "loc_startTime s = None \<or> loc_startTime s = Some 0"
    and "loc_endTime s = None \<or> loc_endTime s = Some 0"
  shows "loc_startTime (buildCounters_body SharedLoopVar i event s) = Some 0
       \<and> loc_endTime (buildCounters_body SharedLoopVar i event s) = Some 0
       \<and> loc_cells (buildCounters_body SharedLoopVar i event s) 0 = ev_Time event"
  using assms by (auto simp add: buildCounters_body_def Let_def)

lemma shared_loop:
  assumes "loc_startTime s = Some 0" "loc_endTime s = Some 0"
  shows "loc_startTime (buildCounters_loop SharedLoopVar i events s) = Some 0
       \<and> loc_endTime (buildCounters_loop SharedLoopVar i events s) = Some 0
       \<and> loc_cells (buildCounters_loop SharedLoopVar i events s) 0
           = (if events = [] then loc_cells s 0 else ev_Time (last events))"
  using assms
proof (induction events arbitrary: i s)
  case Nil
  then show ?case by simp
next
  case (Cons ev events)
  have b: "loc_startTime (buildCounters_body SharedLoopVar i ev s) = Some 0
       \<and> loc_endTime (buildCounters_body SharedLoopVar i ev s) = Some 0
       \<and> loc_cells (buildCounters_body SharedLoopVar i ev s) 0 = ev_Time ev"
    using Cons.prems by (intro shared_body) simp_all
  from Cons.IH[of "buildCounters_body SharedLoopVar i ev s" "Suc i"] b show ?case
    by simp
qed

lemma shared_window_is_last_time:
  "map_sum id snd (buildCounters SharedLoopVar (ev # events)) =
     Inr (ev_Time (last (ev # events)), ev_Time (last (ev # events)))"
proof -
  let ?s1 = "buildCounters_body SharedLoopVar 0 ev
      \<lparr>loc_cells = (\<lambda>_. 0), loc_startTime = None, loc_endTime = None, loc_counters = []\<rparr>"
  have b: "loc_startTime ?s1 = Some 0 \<and> loc_endTime ?s1 = Some 0 \<and> loc_cells ?s1 0 = ev_Time ev"
    by (intro shared_body) simp_all
  from shared_loop[of ?s1 "Suc 0" events] b show ?thesis
    by (simp add: buildCounters_def Let_def)
qed

text \<open>
  With a loop variable per iteration the start is the largest time of the batch and the end
  the smallest.
\<close>

lemma fresh_body:
  assumes "loc_startTime s = Some p" "p < i" "loc_endTime s = Some q" "q < i"
  shows "\<exists>p1 q1. loc_startTime (buildCounters_body PerIterationLoopVar i event s) = Some p1
           \<and> p1 < Suc i
           \<and> loc_cells (buildCounters_body PerIterationLoopVar i event s) p1
               = smax (loc_cells s p) (ev_Time event)
           \<and> loc_endTime (buildCounters_body PerIterationLoopVar i event s) = Some q1
           \<and> q1 < Suc i
           \<and> loc_cells (buildCounters_body PerIterationLoopVar i event s) q1
               = smin (loc_cells s q) (ev_Time event)"
  using assms by (auto simp add: buildCounters_body_def Let_def smax_def smin_def)

lemma fresh_loop:
  assumes "loc_startTime s = Some p" "p < i" "loc_endTime s = Some q" "q < i"
  shows "\<exists>p1 q1. loc_startTime (buildCounters_loop PerIterationLoopVar i events s) = Some p1
           \<and> loc_cells (buildCounters_loop PerIterationLoopVar i events s) p1
               = foldl smax (loc_cells s p) (map ev_Time events)
           \<and> loc_endTime (buildCounters_loop PerIterationLoopVar i events s) = Some q1
           \<and> loc_cells (buildCounters_loop PerIterationLoopVar i events s) q1
               = foldl smin (loc_cells s q) (map ev_Time events)"
  using assms
proof (induction events arbitrary: i s p q)
  case Nil
  then show ?case by simp
next
  case (Cons ev events)
  let ?s1 = "buildCounters_body PerIterationLoopVar i ev s"
  from fresh_body[OF Cons.prems, of ev] obtain p1 q1 where
    p1: "loc_startTime ?s1 = Some p1" "p1 < Suc i"
      "loc_cells ?s1 p1 = smax (loc_cells s p) (ev_Time ev)"
    and q1: "loc_endTime ?s1 = Some q1" "q1 < Suc i"
      "loc_cells ?s1 q1 = smin (loc_cells s q) (ev_Time ev)"
    by blast
  from Cons.IH[OF p1(1,2) q1(1,2)] show ?case
    by (simp add: p1(3) q1(3))
qed

lemma fresh_window_is_max_min:
  "map_sum id snd (buildCounters PerIterationLoopVar (ev # events)) =
     Inr (foldl smax (ev_Time ev) (map ev_Time events),
          foldl smin (ev_Time ev) (map ev_Time events))"
proof -
  let ?s1 = "buildCounters_body PerIterationLoopVar 0 ev
      \<lparr>loc_cells = (\<lambda>_. 0), loc_startTime = None, loc_endTime = None, loc_counters = []\<rparr>"
  have b: "loc_startTime ?s1 = Some 0" "0 < Suc 0" "loc_endTime ?s1 = Some 0" "0 < Suc 0"
    and c: "loc_cells ?s1 0 = ev_Time ev"
    by (simp_all add: buildCounters_body_def Let_def)
  from fresh_loop[OF b, of events] c show ?thesis
    by (auto simp add: buildCounters_def Let_def)
qed

text \<open>
  C3 (the code departs from the claim). The claim: \<open>StartTime\<close> is the minimum and
  \<open>EndTime\<close> the maximum timestamp of the batch. What the code does on a batch of two
  events with the times 1 and 2, whatever their other fields and whatever the order of
  \<open>range\<close>: \<open>StartTime\<close> is 2, the maximum, under both loop-variable semantics; \<open>EndTime\<close>
  is 2 when all iterations share the loop variable (both pointers then alias it and read
  the last event's time) and 1, the minimum, when each iteration has its own. The two
  comparisons of the loop are the wrong way round. (The two lemmas above give the window
  of any batch.)
\<close>

theorem time_window_of_batch_1_2:
  "map_sum id (\<lambda>a. (StartTime a, EndTime a))
     (buildAccess SharedLoopVar rng [e\<lparr>ev_Time := 1\<rparr>, e'\<lparr>ev_Time := 2\<rparr>]) = Inr (2, 2)
   \<and> map_sum id (\<lambda>a. (StartTime a, EndTime a))
     (buildAccess PerIterationLoopVar rng [e\<lparr>ev_Time := 1\<rparr>, e'\<lparr>ev_Time := 2\<rparr>]) = Inr (2, 1)"
  by (simp only: buildAccess_times buildCounters_times_shared buildCounters_times_fresh)

section \<open>The recorder's life cycle\<close>

lemma doFlush_keeps:
  "doFlush env e = Inr e1 \<Longrightarrow>
     wg e1 = wg e \<and> flushLoop e1 = flushLoop e \<and> stopChan e1 = stopChan e"
  by (auto simp add: doFlush_def Let_def split: if_splits sum.splits)

text \<open>
  While the goroutine runs the counter is at least 2, and once it has gone at least 1:
  no turn of the goroutine breaks this, so the counter never reaches zero.
\<close>

lemma flush_loop_turn_wg:
  assumes "(flushLoop e = Running \<and> 2 \<le> wg e) \<or> (flushLoop e \<noteq> Running \<and> 1 \<le> wg e)"
  shows "(flushLoop (flush_loop_turn env c e) = Running \<and> 2 \<le> wg (flush_loop_turn env c e))
       \<or> (flushLoop (flush_loop_turn env c e) \<noteq> Running \<and> 1 \<le> wg (flush_loop_turn env c e))"
proof (cases "flushLoop e = Running")
  case False
  with assms show ?thesis by (simp add: flush_loop_turn_def)
next
  case True
  with assms have w: "2 \<le> wg e" by simp
  show ?thesis
  proof (cases "doFlush env e")
    case (Inl p)
    with True w show ?thesis by (cases c) (simp_all add: flush_loop_turn_def)
  next
    case (Inr e1)
    with True w doFlush_keeps[OF Inr] show ?thesis
      by (cases c) (simp_all add: flush_loop_turn_def)
  qed
qed

lemma wg_Wait_blocked:
  "(flushLoop e = Running \<and> 2 \<le> wg e) \<or> (flushLoop e \<noteq> Running \<and> 1 \<le> wg e)
   \<Longrightarrow> wg_Wait env sched e = None"
proof (induction sched arbitrary: e)
  case Nil
  then show ?case by auto
next
  case (Cons c sched)
  from Cons.prems have "wg e \<noteq> 0" by auto
  moreover have "wg_Wait env sched (flush_loop_turn env c e) = None"
    by (rule Cons.IH) (rule flush_loop_turn_wg[OF Cons.prems])
  ultimately show ?case by simp
qed

text \<open>
  \<open>Stop\<close> on a recorder that was never started closes the channel and returns at once:
  no goroutine runs, so the pending event is not flushed.
\<close>

lemma Stop_without_Start:
  "Stop env sched (RecordAccess ev (NewEventRecorder url d key)) =
     Some ((RecordAccess ev (NewEventRecorder url d key))
             \<lparr>stopOnce := True, stopChan := ClosedChan\<rparr>)"
  by (cases sched) (simp_all add: Stop_def Stop_close_def RecordAccess_def NewEventRecorder_def)

text \<open>
  For comparison: one \<open>Start\<close>, one recorded event, then \<open>Stop\<close>. The goroutine takes the
  stop branch, flushes once and \<open>Stop\<close> returns. The ticker is left as it was: the code
  never calls \<open>ticker.Stop()\<close>.
\<close>

lemma Stop_after_one_Start:
  "case Start (NewEventRecorder url 2000 key) of
     Inl p \<Rightarrow> False
   | Inr e1 \<Rightarrow>
       (case Stop env [StopCase] (RecordAccess ev e1) of
          None \<Rightarrow> False
        | Some e2 \<Rightarrow> length (posted e2) = (if env_valid_url env url then 1 else 0)
                     \<and> incomingEvents e2 = [] \<and> flushLoop e2 = Returned
                     \<and> ticker e2 = Some 2000000000)"
  by (simp add: Start_def NewEventRecorder_def Let_def Stop_def Stop_close_def RecordAccess_def
      flush_loop_turn_def doFlush_def buildPackedData_def buildAccess_def buildCounters_def
      buildCounters_body_def word_sle_eq buildAccess_body_def USER_AGENT_def)

text \<open>
  C5 (the code departs from the claim). The claim: \<open>Start\<close> is idempotent, and any sequence
  of \<open>Start\<close> calls followed by \<open>Stop\<close> terminates after the one final flush. What the code
  does after two calls of \<open>Start\<close> on a new recorder (interval 2000): both calls succeed,
  and then \<open>Stop\<close> never returns, whatever the goroutine does while the caller waits
  (any \<open>sched\<close>). \<open>wg.Add(1)\<close> stands outside \<open>startOnce.Do\<close>, so the second \<open>Start\<close> raises
  the counter to 2, and the only \<open>wg.Done()\<close> is the goroutine's.
\<close>

theorem Stop_blocks_after_second_Start:
  "case Start (NewEventRecorder url 2000 key) of
     Inl p \<Rightarrow> False
   | Inr e1 \<Rightarrow> (case Start e1 of Inl p \<Rightarrow> False | Inr e2 \<Rightarrow> Stop env sched e2 = None)"
proof -
  have s1: "Start (NewEventRecorder url 2000 key :: 'a EventRecorder) =
      Inr ((NewEventRecorder url 2000 key)\<lparr>wg := 1, startOnce := True,
             ticker := Some 2000000000, flushLoop := Running\<rparr>)"
    by (simp add: Start_def NewEventRecorder_def Let_def word_sle_eq)
  have s2: "Start ((NewEventRecorder url 2000 key :: 'a EventRecorder)\<lparr>wg := 1,
             startOnce := True, ticker := Some 2000000000, flushLoop := Running\<rparr>) =
      Inr ((NewEventRecorder url 2000 key)\<lparr>wg := 2, startOnce := True,
             ticker := Some 2000000000, flushLoop := Running\<rparr>)"
    by (simp add: Start_def NewEventRecorder_def Let_def word_sle_eq)
  have "Stop env sched ((NewEventRecorder url 2000 key :: 'a EventRecorder)\<lparr>wg := 2,
             startOnce := True, ticker := Some 2000000000, flushLoop := Running\<rparr>) = None"
    unfolding Stop_def
    by (rule wg_Wait_blocked) (simp add: Stop_close_def NewEventRecorder_def)
  with s1 s2 show ?thesis by simp
qed

section \<open>The client: what genericDetail returns\<close>

lemma genericDetail_absent:
  assumes "Repo fp = None \<or> (\<exists>repo. Repo fp = Some repo \<and> Toggles repo toggle = None)"
  shows "genericDetail E n fp toggle user d =
           ((d, NilPtr, NilPtr, ''Toggle:['' @ toggle @ ''] not exist''), fp)"
  using assms by (auto simp add: genericDetail_def)

lemma genericDetail_found:
  assumes "Repo fp = Some repo" "Toggles repo toggle = Some t"
    and "E t user (Segments repo) = (detail, err)"
  shows "genericDetail E n fp toggle user d =
           ((if err = None then d_Value detail else d, d_RuleIndex detail, d_Version detail,
             d_Reason detail),
            (case Recorder fp of
               None \<Rightarrow> fp
             | Some r \<Rightarrow>
                 fp\<lparr>Recorder := Some (RecordAccess
                   \<lparr>ev_Time = word_of_int (sint n sdiv 1000000), ev_Key = toggle,
                    ev_Value = (if err = None then d_Value detail else d),
                    ev_Index = d_VariationIndex detail, ev_Version = d_Version detail,
                    ev_Reason = d_Reason detail\<rparr> r)\<rparr>))"
  using assms by (cases "Recorder fp") (simp_all add: genericDetail_def Let_def)

lemma genericDetail_recorder:
  assumes "Recorder fp = Some r"
  shows "\<exists>ev. ev_Key ev = toggle \<and> ev_Time ev = word_of_int (sint n sdiv 1000000) \<and>
           snd (genericDetail E n fp toggle user d) =
             (if toggle_found fp toggle
              then fp\<lparr>Recorder := Some (r\<lparr>incomingEvents := incomingEvents r @ [ev]\<rparr>)\<rparr>
              else fp)"
proof (cases "toggle_found fp toggle")
  case False
  then have "Repo fp = None \<or> (\<exists>repo. Repo fp = Some repo \<and> Toggles repo toggle = None)"
    by (auto simp add: toggle_found_def split: option.splits)
  from genericDetail_absent[OF this, of E n user d] False show ?thesis
    by (intro exI[of _ "\<lparr>ev_Time = word_of_int (sint n sdiv 1000000), ev_Key = toggle,
          ev_Value = d, ev_Index = NilPtr, ev_Version = NilPtr, ev_Reason = []\<rparr>"]) simp
next
  case True
  then obtain repo t where rt: "Repo fp = Some repo" "Toggles repo toggle = Some t"
    by (auto simp add: toggle_found_def split: option.splits)
  obtain detail err where ev: "E t user (Segments repo) = (detail, err)"
    by (cases "E t user (Segments repo)")
  show ?thesis
    using genericDetail_found[where E=E and user=user and n=n and d=d, OF rt ev] True assms
    by (intro exI[of _ "\<lparr>ev_Time = word_of_int (sint n sdiv 1000000), ev_Key = toggle,
          ev_Value = (if err = None then d_Value detail else d),
          ev_Index = d_VariationIndex detail, ev_Version = d_Version detail,
          ev_Reason = d_Reason detail\<rparr>"]) (simp add: RecordAccess_def)
qed

text \<open>
  The pending list after a call of \<open>genericDetail\<close> on a client with a recorder: one event
  more, for the toggle key, when the toggle is found, and the same list otherwise.
\<close>

lemma genericDetail_pending:
  assumes "Recorder fp = Some r"
  shows "\<exists>ev. ev_Key ev = toggle \<and>
           map_option incomingEvents (Recorder (snd (genericDetail E n fp toggle user d))) =
             Some (if toggle_found fp toggle then incomingEvents r @ [ev] else incomingEvents r)
         \<and> snd (genericDetail E n fp toggle user d) =
             (if toggle_found fp toggle
              then fp\<lparr>Recorder := Some (r\<lparr>incomingEvents := incomingEvents r @ [ev]\<rparr>)\<rparr>
              else fp)"
proof -
  from genericDetail_recorder[OF assms, of toggle n E user d] obtain ev where
    k: "ev_Key ev = toggle"
    and g: "snd (genericDetail E n fp toggle user d) =
             (if toggle_found fp toggle
              then fp\<lparr>Recorder := Some (r\<lparr>incomingEvents := incomingEvents r @ [ev]\<rparr>)\<rparr>
              else fp)"
    by blast
  have "map_option incomingEvents (Recorder (snd (genericDetail E n fp toggle user d))) =
      Some (if toggle_found fp toggle then incomingEvents r @ [ev] else incomingEvents r)"
    unfolding g using assms by simp
  with k g show ?thesis by blast
qed

lemma genericDetail_resolved:
  assumes "Repo fp = Some repo" "Toggles repo toggle = Some t"
    and "E t user (Segments repo) = (detail, err)"
  shows "fst (genericDetail E n fp toggle user d) =
           (if err = None then d_Value detail else d, d_RuleIndex detail, d_Version detail,
            d_Reason detail)"
  by (simp add: genericDetail_found[where E=E and user=user, OF assms])

section \<open>The client: recording of access events\<close>

text \<open>
  C2, as amended. The claim: with a recorder, every accessor call enqueues exactly one
  event, also when the repository is nil or the toggle key is absent. What holds: with a
  recorder \<open>r\<close>, after a call of any of the eight accessors the recorder's pending list is
  the list before the call with exactly one event for the toggle key appended, when the
  repository is not nil and holds the key; otherwise the pending list and the whole
  client are as before (\<open>genericDetail\<close> returns before it records). Nothing else of the
  client or the recorder changes in either case.
\<close>

theorem accessors_record_iff_toggle_found:
  assumes "Recorder fp = Some r"
  shows
   "(\<exists>ev. ev_Key ev = toggle \<and>
       map_option incomingEvents (Recorder (snd (BoolValue E n fp toggle user b))) =
         Some (if toggle_found fp toggle then incomingEvents r @ [ev] else incomingEvents r)
     \<and> snd (BoolValue E n fp toggle user b) =
         (if toggle_found fp toggle
          then fp\<lparr>Recorder := Some (r\<lparr>incomingEvents := incomingEvents r @ [ev]\<rparr>)\<rparr>
          else fp))
  \<and> (\<exists>ev. ev_Key ev = toggle \<and>
       map_option incomingEvents (Recorder (snd (StrValue E n fp toggle user s))) =
         Some (if toggle_found fp toggle then incomingEvents r @ [ev] else incomingEvents r)
     \<and> snd (StrValue E n fp toggle user s) =
         (if toggle_found fp toggle
          then fp\<lparr>Recorder := Some (r\<lparr>incomingEvents := incomingEvents r @ [ev]\<rparr>)\<rparr>
          else fp))
  \<and> (\<exists>ev. ev_Key ev = toggle \<and>
       map_option incomingEvents (Recorder (snd (NumberValue cv E n fp toggle user x))) =
         Some (if toggle_found fp toggle then incomingEvents r @ [ev] else incomingEvents r)
     \<and> snd (NumberValue cv E n fp toggle user x) =
         (if toggle_found fp toggle
          then fp\<lparr>Recorder := Some (r\<lparr>incomingEvents := incomingEvents r @ [ev]\<rparr>)\<rparr>
          else fp))
  \<and> (\<exists>ev. ev_Key ev = toggle \<and>
       map_option incomingEvents (Recorder (snd (JsonValue E n fp toggle user j))) =
         Some (if toggle_found fp toggle then incomingEvents r @ [ev] else incomingEvents r)
     \<and> snd (JsonValue E n fp toggle user j) =
         (if toggle_found fp toggle
          then fp\<lparr>Recorder := Some (r\<lparr>incomingEvents := incomingEvents r @ [ev]\<rparr>)\<rparr>
          else fp))
  \<and> (\<exists>ev. ev_Key ev = toggle \<and>
       map_option incomingEvents (Recorder (snd (BoolDetail E n fp toggle user b))) =
         Some (if toggle_found fp toggle then incomingEvents r @ [ev] else incomingEvents r)
     \<and> snd (BoolDetail E n fp toggle user b) =
         (if toggle_found fp toggle
          then fp\<lparr>Recorder := Some (r\<lparr>incomingEvents := incomingEvents r @ [ev]\<rparr>)\<rparr>
          else fp))
  \<and> (\<exists>ev. ev_Key ev = toggle \<and>
       map_option incomingEvents (Recorder (snd (StrDetail E n fp toggle user s))) =
         Some (if toggle_found fp toggle then incomingEvents r @ [ev] else incomingEvents r)
     \<and> snd (StrDetail E n fp toggle user s) =
         (if toggle_found fp toggle
          then fp\<lparr>Recorder := Some (r\<lparr>incomingEvents := incomingEvents r @ [ev]\<rparr>)\<rparr>
          else fp))
  \<and> (\<exists>ev. ev_Key ev = toggle \<and>
       map_option incomingEvents (Recorder (snd (NumberDetail E n fp toggle user x))) =
         Some (if toggle_found fp toggle then incomingEvents r @ [ev] else incomingEvents r)
     \<and> snd (NumberDetail E n fp toggle user x) =
         (if toggle_found fp toggle
          then fp\<lparr>Recorder := Some (r\<lparr>incomingEvents := incomingEvents r @ [ev]\<rparr>)\<rparr>
          else fp))
  \<and> (\<exists>ev. ev_Key ev = toggle \<and>
       map_option incomingEvents (Recorder (snd (JsonDetail E n fp toggle user j))) =
         Some (if toggle_found fp toggle then incomingEvents r @ [ev] else incomingEvents r)
     \<and> snd (JsonDetail E n fp toggle user j) =
         (if toggle_found fp toggle
          then fp\<lparr>Recorder := Some (r\<lparr>incomingEvents := incomingEvents r @ [ev]\<rparr>)\<rparr>
          else fp))"
proof -
  have g: "\<exists>ev. ev_Key ev = toggle \<and>
      map_option incomingEvents (Recorder (snd (genericDetail E n fp toggle user d))) =
        Some (if toggle_found fp toggle then incomingEvents r @ [ev] else incomingEvents r)
      \<and> snd (genericDetail E n fp toggle user d) =
        (if toggle_found fp toggle
         then fp\<lparr>Recorder := Some (r\<lparr>incomingEvents := incomingEvents r @ [ev]\<rparr>)\<rparr>
         else fp)" for d
    by (rule genericDetail_pending[OF assms])
  show ?thesis
    unfolding BoolValue_def StrValue_def NumberValue_def JsonValue_def
      BoolDetail_def StrDetail_def NumberDetail_def JsonDetail_def Let_def snd_conv
    by (intro conjI g)
qed

theorem accessors_record_iff_toggle_found_witness:
  "Recorder demo_client = Some demo_recorder \<and> toggle_found demo_client ''int_toggle''
   \<and> incomingEvents demo_recorder = []
   \<and> (\<exists>ev. ev_Key ev = ''int_toggle'' \<and>
         map_option incomingEvents
           (Recorder (snd (BoolValue demo_evalDetail 0 demo_client ''int_toggle'' () True))) =
           Some [ev])"
proof -
  have r: "Recorder demo_client = Some demo_recorder"
    by (simp add: demo_client_def)
  have f: "toggle_found demo_client ''int_toggle''"
    by (simp add: toggle_found_def demo_client_def demo_repo_def)
  have p: "incomingEvents demo_recorder = []"
    by (simp add: demo_recorder_def NewEventRecorder_def)
  from accessors_record_iff_toggle_found[OF r, of "''int_toggle''" demo_evalDetail 0 "()" True]
  have "\<exists>ev. ev_Key ev = ''int_toggle'' \<and>
       map_option incomingEvents
         (Recorder (snd (BoolValue demo_evalDetail 0 demo_client ''int_toggle'' () True))) =
         Some (if toggle_found demo_client ''int_toggle''
               then incomingEvents demo_recorder @ [ev] else incomingEvents demo_recorder)
     \<and> snd (BoolValue demo_evalDetail 0 demo_client ''int_toggle'' () True) =
         (if toggle_found demo_client ''int_toggle''
          then demo_client\<lparr>Recorder :=
                 Some (demo_recorder\<lparr>incomingEvents := incomingEvents demo_recorder @ [ev]\<rparr>)\<rparr>
          else demo_client)"
    by (rule conjunct1)
  then obtain ev where "ev_Key ev = ''int_toggle''"
    and "map_option incomingEvents
         (Recorder (snd (BoolValue demo_evalDetail 0 demo_client ''int_toggle'' () True))) =
         Some [ev]"
    using f p by auto
  with r f p show ?thesis by blast
qed

text \<open>
  C2, the claim as stated fails: the recorder of \<open>demo_client\<close> has nothing pending, and it
  still has nothing pending after a boolean query on a client with a nil repository and
  after a JSON detail query for a key the repository does not hold.
\<close>

theorem no_event_without_toggle:
  "map_option incomingEvents (Recorder (demo_client\<lparr>Repo := None\<rparr>)) = Some []
   \<and> map_option incomingEvents
       (Recorder (snd (BoolValue demo_evalDetail 0 (demo_client\<lparr>Repo := None\<rparr>)
                         ''int_toggle'' () True))) = Some []
   \<and> map_option incomingEvents
       (Recorder (snd (JsonDetail demo_evalDetail 0 demo_client ''not_exist_toggle'' () GNil)))
       = Some []"
  by (simp add: BoolValue_def JsonDetail_def genericDetail_def demo_client_def demo_repo_def
      demo_recorder_def NewEventRecorder_def Let_def)

section \<open>The client: absent toggles\<close>

lemma Contains_self: "Contains s s"
  by (cases s) simp_all

lemma Contains_append_left: "Contains (p @ s) s"
  by (induction p) (simp_all add: Contains_self)

lemma not_exist_reason: "Contains (''Toggle:['' @ toggle @ ''] not exist'') ''not exist''"
proof -
  have "''Toggle:['' @ toggle @ ''] not exist'' = (''Toggle:['' @ toggle @ ''] '') @ ''not exist''"
    by simp
  then show ?thesis
    by (simp only: Contains_append_left)
qed

text \<open>
  C7. For a toggle key that the repository does not hold, and for a client whose
  repository is nil, each of the four value accessors returns the caller's default and
  each of the four detail accessors returns the default with no rule index, no version and
  the reason \<open>Toggle:[key] not exist\<close>, which contains \<open>not exist\<close>. No accessor has an
  error result, and the client is left as it is.
\<close>

theorem absent_toggle_gives_default:
  assumes "Repo fp = None \<or> (\<exists>repo. Repo fp = Some repo \<and> Toggles repo toggle = None)"
  shows
   "BoolValue E n fp toggle user b = (b, fp)
  \<and> StrValue E n fp toggle user s = (s, fp)
  \<and> NumberValue cv E n fp toggle user x = (x, fp)
  \<and> JsonValue E n fp toggle user j = (j, fp)
  \<and> BoolDetail E n fp toggle user b =
       (\<lparr>bd_Value = b, bd_RuleIndex = NilPtr, bd_Version = NilPtr,
         bd_Reason = ''Toggle:['' @ toggle @ ''] not exist''\<rparr>, fp)
  \<and> StrDetail E n fp toggle user s =
       (\<lparr>sd_Value = s, sd_RuleIndex = NilPtr, sd_Version = NilPtr,
         sd_Reason = ''Toggle:['' @ toggle @ ''] not exist''\<rparr>, fp)
  \<and> NumberDetail E n fp toggle user x =
       (\<lparr>nd_Value = x, nd_RuleIndex = NilPtr, nd_Version = NilPtr,
         nd_Reason = ''Toggle:['' @ toggle @ ''] not exist''\<rparr>, fp)
  \<and> JsonDetail E n fp toggle user j =
       (\<lparr>jd_Value = j, jd_RuleIndex = NilPtr, jd_Version = NilPtr,
         jd_Reason = ''Toggle:['' @ toggle @ ''] not exist''\<rparr>, fp)
  \<and> Contains (''Toggle:['' @ toggle @ ''] not exist'') ''not exist''"
proof -
  have g: "genericDetail E n fp toggle user d =
      ((d, NilPtr, NilPtr, ''Toggle:['' @ toggle @ ''] not exist''), fp)" for d
    by (rule genericDetail_absent[OF assms])
  show ?thesis
    unfolding BoolValue_def StrValue_def NumberValue_def JsonValue_def
      BoolDetail_def StrDetail_def NumberDetail_def JsonDetail_def Let_def g
    by (simp add: not_exist_reason del: append.simps Contains.simps)
qed

theorem absent_toggle_gives_default_witness:
  "Repo (demo_client\<lparr>Repo := None\<rparr>) = None
   \<and> BoolDetail demo_evalDetail 0 (demo_client\<lparr>Repo := None\<rparr>) ''bool_toggle'' () True =
       (\<lparr>bd_Value = True, bd_RuleIndex = NilPtr, bd_Version = NilPtr,
         bd_Reason = ''Toggle:[bool_toggle] not exist''\<rparr>, demo_client\<lparr>Repo := None\<rparr>)
   \<and> Repo demo_client = Some demo_repo \<and> Toggles demo_repo ''not_exist_toggle'' = None
   \<and> NumberValue real_of_int demo_evalDetail 0 demo_client ''not_exist_toggle'' () 1 = (1, demo_client)"
proof -
  have h1: "Repo (demo_client\<lparr>Repo := None\<rparr>) = None \<or>
      (\<exists>repo. Repo (demo_client\<lparr>Repo := None\<rparr>) = Some repo \<and> Toggles repo ''bool_toggle'' = None)"
    by simp
  have h2: "Repo demo_client = None \<or>
      (\<exists>repo. Repo demo_client = Some repo \<and> Toggles repo ''not_exist_toggle'' = None)"
    by (simp add: demo_client_def demo_repo_def)
  have r: "Repo demo_client = Some demo_repo \<and> Toggles demo_repo ''not_exist_toggle'' = None"
    by (simp add: demo_client_def demo_repo_def)
  show ?thesis
    using absent_toggle_gives_default[OF h1, where E=demo_evalDetail and n=0 and user="()"
        and b=True]
      absent_toggle_gives_default[OF h2, where E=demo_evalDetail and n=0 and user="()"
        and cv=real_of_int and x=1] r
    by simp
qed

section \<open>The client: type mismatch\<close>

text \<open>
  C6, as amended. The claim: on a mismatch the typed detail accessor keeps the resolved
  rule index and version, and carries the caller's default and the reason
  \<open>value type mismatch\<close>. What holds: all of it, with the reason \<open>Value type mismatch\<close>
  (capital V). The toggle resolves without error to \<open>detail\<close>; the accessor whose kind the
  value does not have returns the default, the rule index and version of \<open>detail\<close>, and
  that reason.
\<close>

theorem typed_detail_mismatch:
  assumes "Repo fp = Some repo" "Toggles repo toggle = Some t"
    and "E t user (Segments repo) = (detail, None)"
  shows
   "((\<forall>v. d_Value detail \<noteq> GBool v) \<longrightarrow>
       fst (BoolDetail E n fp toggle user b) =
         \<lparr>bd_Value = b, bd_RuleIndex = d_RuleIndex detail, bd_Version = d_Version detail,
          bd_Reason = ''Value type mismatch''\<rparr>)
  \<and> ((\<forall>v. d_Value detail \<noteq> GString v) \<longrightarrow>
       fst (StrDetail E n fp toggle user s) =
         \<lparr>sd_Value = s, sd_RuleIndex = d_RuleIndex detail, sd_Version = d_Version detail,
          sd_Reason = ''Value type mismatch''\<rparr>)
  \<and> ((\<forall>v. d_Value detail \<noteq> GFloat64 v) \<longrightarrow>
       fst (NumberDetail E n fp toggle user x) =
         \<lparr>nd_Value = x, nd_RuleIndex = d_RuleIndex detail, nd_Version = d_Version detail,
          nd_Reason = ''Value type mismatch''\<rparr>)"
proof -
  have g: "fst (genericDetail E n fp toggle user d) =
      (d_Value detail, d_RuleIndex detail, d_Version detail, d_Reason detail)" for d
    using genericDetail_resolved[where E=E and user=user, OF assms, of n d] by simp
  show ?thesis
    unfolding BoolDetail_def StrDetail_def NumberDetail_def Let_def g fst_conv snd_conv
    by (cases "d_Value detail") auto
qed

theorem typed_detail_mismatch_witness:
  "Repo demo_client = Some demo_repo \<and> Toggles demo_repo ''int_toggle'' = Some (GInt 7)
   \<and> fst (BoolDetail demo_evalDetail 0 demo_client ''int_toggle'' () True) =
        \<lparr>bd_Value = True, bd_RuleIndex = NilPtr, bd_Version = Ptr 2 0,
         bd_Reason = ''Value type mismatch''\<rparr>
   \<and> fst (StrDetail demo_evalDetail 0 demo_client ''int_toggle'' () ''1'') =
        \<lparr>sd_Value = ''1'', sd_RuleIndex = NilPtr, sd_Version = Ptr 2 0,
         sd_Reason = ''Value type mismatch''\<rparr>
   \<and> fst (NumberDetail demo_evalDetail 0 demo_client ''int_toggle'' () 1) =
        \<lparr>nd_Value = 1, nd_RuleIndex = NilPtr, nd_Version = Ptr 2 0,
         nd_Reason = ''Value type mismatch''\<rparr>"
proof -
  have h1: "Repo demo_client = Some demo_repo"
    by (simp add: demo_client_def)
  have h2: "Toggles demo_repo ''int_toggle'' = Some (GInt 7)"
    by (simp add: demo_repo_def)
  have h3: "demo_evalDetail (GInt 7) () (Segments demo_repo) =
      (\<lparr>d_Value = GInt 7, d_VariationIndex = Ptr 1 0, d_RuleIndex = NilPtr,
        d_Version = Ptr 2 0, d_Reason = ''default''\<rparr>, None)"
    by (simp add: demo_evalDetail_def)
  show ?thesis
    using typed_detail_mismatch[where E=demo_evalDetail and user="()", OF h1 h2 h3,
        of 0 True "''1''" 1] h1 h2
    by simp
qed

text \<open>
  C6, the claim as stated fails: a toggle whose variation is the number 2, queried through
  the boolean detail accessor with default true, gives true and the reason
  \<open>Value type mismatch\<close>, which is not the string \<open>value type mismatch\<close>.
\<close>

theorem mismatch_reason_is_capitalised:
  "fst (BoolDetail demo_evalDetail 0 demo_client ''number_toggle'' () True) =
     \<lparr>bd_Value = True, bd_RuleIndex = NilPtr, bd_Version = Ptr 2 0,
      bd_Reason = ''Value type mismatch''\<rparr>
   \<and> bd_Reason (fst (BoolDetail demo_evalDetail 0 demo_client ''number_toggle'' () True))
       \<noteq> ''value type mismatch''"
  by (simp add: BoolDetail_def genericDetail_def demo_client_def demo_repo_def
      demo_evalDetail_def Let_def)

section \<open>The client: the JSON accessor\<close>

text \<open>
  C8. The JSON accessors never report a mismatch. For every client, toggle key, user and
  default, \<open>JsonDetail\<close> returns: the default with the reason \<open>Toggle:[key] not exist\<close> when
  the repository is nil or does not hold the key; otherwise the resolved value, whatever
  its kind (the default when evaluation returned an error), with the rule index, the
  version and the reason of the evaluation, unchanged. \<open>JsonValue\<close> returns the same value.
\<close>

theorem json_accessor_passes_any_kind:
  "fst (JsonDetail E n fp toggle user j) =
     (case Repo fp of
        None \<Rightarrow>
          \<lparr>jd_Value = j, jd_RuleIndex = NilPtr, jd_Version = NilPtr,
           jd_Reason = ''Toggle:['' @ toggle @ ''] not exist''\<rparr>
      | Some repo \<Rightarrow>
          (case Toggles repo toggle of
             None \<Rightarrow>
               \<lparr>jd_Value = j, jd_RuleIndex = NilPtr, jd_Version = NilPtr,
                jd_Reason = ''Toggle:['' @ toggle @ ''] not exist''\<rparr>
           | Some t \<Rightarrow>
               \<lparr>jd_Value = (if snd (E t user (Segments repo)) = None
                            then d_Value (fst (E t user (Segments repo))) else j),
                jd_RuleIndex = d_RuleIndex (fst (E t user (Segments repo))),
                jd_Version = d_Version (fst (E t user (Segments repo))),
                jd_Reason = d_Reason (fst (E t user (Segments repo)))\<rparr>))
   \<and> fst (JsonValue E n fp toggle user j) = jd_Value (fst (JsonDetail E n fp toggle user j))"
  by (simp add: JsonDetail_def JsonValue_def genericDetail_def Let_def split: option.split)

section \<open>The client: the two number accessors\<close>

text \<open>
  C10. For a toggle that resolves without error to a Go \<open>int\<close> \<open>i\<close>, \<open>NumberValue\<close> returns
  \<open>float64(i)\<close>, while \<open>NumberDetail\<close> returns the caller's default with the reason
  \<open>Value type mismatch\<close>.
\<close>

theorem number_accessors_disagree_on_int:
  assumes "Repo fp = Some repo" "Toggles repo toggle = Some t"
    and "E t user (Segments repo) = (detail, None)" and "d_Value detail = GInt i"
  shows
   "fst (NumberValue float64_of_int E n fp toggle user x) = float64_of_int i
  \<and> fst (NumberDetail E n fp toggle user x) =
       \<lparr>nd_Value = x, nd_RuleIndex = d_RuleIndex detail, nd_Version = d_Version detail,
        nd_Reason = ''Value type mismatch''\<rparr>"
proof -
  have g: "fst (genericDetail E n fp toggle user d) =
      (GInt i, d_RuleIndex detail, d_Version detail, d_Reason detail)" for d
    using genericDetail_resolved[where E=E and user=user, OF assms(1-3), of n d] assms(4)
    by simp
  show ?thesis
    unfolding NumberValue_def NumberDetail_def Let_def g fst_conv snd_conv
    by simp
qed

theorem number_accessors_disagree_on_int_witness:
  "Repo demo_client = Some demo_repo \<and> Toggles demo_repo ''int_toggle'' = Some (GInt 7)
   \<and> fst (NumberValue real_of_int demo_evalDetail 0 demo_client ''int_toggle'' () 1) = 7
   \<and> fst (NumberDetail demo_evalDetail 0 demo_client ''int_toggle'' () 1) =
        \<lparr>nd_Value = 1, nd_RuleIndex = NilPtr, nd_Version = Ptr 2 0,
         nd_Reason = ''Value type mismatch''\<rparr>"
proof -
  have h1: "Repo demo_client = Some demo_repo"
    by (simp add: demo_client_def)
  have h2: "Toggles demo_repo ''int_toggle'' = Some (GInt 7)"
    by (simp add: demo_repo_def)
  have h3: "demo_evalDetail (GInt 7) () (Segments demo_repo) =
      (\<lparr>d_Value = GInt 7, d_VariationIndex = Ptr 1 0, d_RuleIndex = NilPtr,
        d_Version = Ptr 2 0, d_Reason = ''default''\<rparr>, None)"
    by (simp add: demo_evalDetail_def)
  have h4: "d_Value \<lparr>d_Value = GInt 7, d_VariationIndex = Ptr 1 0, d_RuleIndex = NilPtr,
        d_Version = Ptr 2 0, d_Reason = ''default''\<rparr> = (GInt 7 :: real gvalue)"
    by simp
  show ?thesis
    using number_accessors_disagree_on_int[where E=demo_evalDetail and user="()",
        OF h1 h2 h3 h4, of real_of_int 0 1] h1 h2
    by simp
qed

section \<open>Configuration\<close>

text \<open>
  C9. \<open>NewFeatureProbe\<close> without options returns a client whose configuration has the
  refresh interval 2000 and the wait flag true (the ticker's period is then 2000
  milliseconds, in nanoseconds). An option added after any others changes exactly its own
  field of the configuration: the toggles URL, the events URL, the interval, the wait
  flag. The last conjunct ties the configuration to \<open>NewFeatureProbe\<close> itself: the client
  carries it, unless the interval makes \<open>time.NewTicker\<close> panic.
\<close>

theorem NewFeatureProbe_defaults_and_options:
  "(case (NewFeatureProbe sync url key [] :: panic + ('f, 't, 's, 'y) FeatureProbe) of
      Inl p \<Rightarrow> False
    | Inr fp \<Rightarrow> RefreshInterval (Config fp) = 2000 \<and> WaitFirstResp (Config fp) = True
        \<and> map_option ticker (Recorder fp) = Some (Some 2000000000))
   \<and> NewFeatureProbe_config url key (opts @ [WithTogglesUri uri]) =
       (NewFeatureProbe_config url key opts)
         \<lparr>TogglesUrl := RemoteUrl (NewFeatureProbe_config url key opts) @ uri\<rparr>
   \<and> NewFeatureProbe_config url key (opts @ [WithEventsUri uri]) =
       (NewFeatureProbe_config url key opts)
         \<lparr>EventsUrl := RemoteUrl (NewFeatureProbe_config url key opts) @ uri\<rparr>
   \<and> NewFeatureProbe_config url key (opts @ [WithRefreshInterval interval]) =
       (NewFeatureProbe_config url key opts)\<lparr>RefreshInterval := interval\<rparr>
   \<and> NewFeatureProbe_config url key (opts @ [WithWaitFirstResp wait]) =
       (NewFeatureProbe_config url key opts)\<lparr>WaitFirstResp := wait\<rparr>
   \<and> map_sum id Config
         (NewFeatureProbe sync url key opts :: panic + ('f, 't, 's, 'y) FeatureProbe) =
       (if word_of_int (RefreshInterval (NewFeatureProbe_config url key opts)) * 1000000
             \<le>s (0 :: int64)
        then Inl NonPositiveTickerInterval
        else Inr (NewFeatureProbe_config url key opts))"
proof -
  have a: "RefreshInterval (NewFeatureProbe_config url key []) = 2000
      \<and> WaitFirstResp (NewFeatureProbe_config url key []) = True"
    by (simp add: NewFeatureProbe_config_def Let_def)
  have b: "map_sum id Config
         (NewFeatureProbe sync url key opts :: panic + ('f, 't, 's, 'y) FeatureProbe) =
       (if word_of_int (RefreshInterval (NewFeatureProbe_config url key opts)) * 1000000
             \<le>s (0 :: int64)
        then Inl NonPositiveTickerInterval
        else Inr (NewFeatureProbe_config url key opts))" for opts
    by (simp add: NewFeatureProbe_def Start_def NewEventRecorder_def Let_def)
  have c: "(case (NewFeatureProbe sync url key [] :: panic + ('f, 't, 's, 'y) FeatureProbe) of
      Inl p \<Rightarrow> False
    | Inr fp \<Rightarrow> RefreshInterval (Config fp) = 2000 \<and> WaitFirstResp (Config fp) = True
        \<and> map_option ticker (Recorder fp) = Some (Some 2000000000))"
    using b[of "[]"] a
    by (simp add: NewFeatureProbe_def Start_def NewEventRecorder_def Let_def word_sle_eq)
  show ?thesis
    using c b[of opts]
    by (simp add: NewFeatureProbe_config_def Let_def WithTogglesUri_def WithEventsUri_def
        WithRefreshInterval_def WithWaitFirstResp_def)
qed

section \<open>Delivery: the request body\<close>

lemma those_map_Some:
  "(\<And>x. x \<in> set xs \<Longrightarrow> f x \<noteq> None)
   \<Longrightarrow> \<exists>ys. those (map f xs) = Some ys \<and> length ys = length xs"
proof (induction xs)
  case Nil
  then show ?case by simp
next
  case (Cons x xs)
  then obtain y ys where "f x = Some y" "those (map f xs) = Some ys" "length ys = length xs"
    by (metis list.set_intros(1,2) not_None_eq)
  then show ?case by simp
qed

lemma buildCounters_body_encodable:
  assumes "values_encodable fin str s" "Marshal_value fin str (ev_Value event) \<noteq> None"
  shows "values_encodable fin str (buildCounters_body lv i event s)"
  using assms
  by (auto simp add: values_encodable_def buildCounters_body_def Let_def split: option.splits)

lemma buildCounters_body_pointers:
  "loc_startTime (buildCounters_body lv i event s) \<noteq> None
   \<and> loc_endTime (buildCounters_body lv i event s) \<noteq> None"
  by (simp add: buildCounters_body_def Let_def split: option.splits)

lemma buildCounters_loop_pointers:
  "loc_startTime s \<noteq> None \<and> loc_endTime s \<noteq> None \<Longrightarrow>
   loc_startTime (buildCounters_loop lv i events s) \<noteq> None
   \<and> loc_endTime (buildCounters_loop lv i events s) \<noteq> None"
proof (induction events arbitrary: i s)
  case Nil
  then show ?case by simp
next
  case (Cons ev events)
  show ?case
    using Cons.IH[OF buildCounters_body_pointers] by simp
qed

lemma buildCounters_loop_encodable:
  "values_encodable fin str s \<Longrightarrow>
   (\<And>ev. ev \<in> set events \<Longrightarrow> Marshal_value fin str (ev_Value ev) \<noteq> None) \<Longrightarrow>
   values_encodable fin str (buildCounters_loop lv i events s)"
  by (induction events arbitrary: i s) (simp_all add: buildCounters_body_encodable)

lemma buildCounters_nonempty:
  assumes "events \<noteq> []"
    and "\<And>ev. ev \<in> set events \<Longrightarrow> Marshal_value fin str (ev_Value ev) \<noteq> None"
  shows "\<exists>cs st en. buildCounters lv events = Inr (cs, st, en)
           \<and> (\<forall>kv \<in> set cs. Marshal_value fin str (cv_Value (snd kv)) \<noteq> None)"
proof -
  let ?init = "\<lparr>loc_cells = (\<lambda>_. 0), loc_startTime = None, loc_endTime = None,
                 loc_counters = []\<rparr> :: 'a counters_state"
  let ?s = "buildCounters_loop lv 0 events ?init"
  from assms(1) obtain ev rest where ev: "events = ev # rest"
    by (cases events) auto
  have "loc_startTime ?s \<noteq> None \<and> loc_endTime ?s \<noteq> None"
    unfolding ev using buildCounters_loop_pointers[OF buildCounters_body_pointers] by simp
  then obtain p q where pq: "loc_startTime ?s = Some p" "loc_endTime ?s = Some q"
    by auto
  have "values_encodable fin str ?init"
    by (simp add: values_encodable_def)
  then have "values_encodable fin str ?s"
    using assms(2) by (rule buildCounters_loop_encodable)
  then show ?thesis
    using pq unfolding buildCounters_def Let_def values_encodable_def by simp
qed

lemma add_counter_encodable:
  "counters_encodable fin str m \<Longrightarrow> Marshal_value fin str (tc_Value c) \<noteq> None \<Longrightarrow>
   counters_encodable fin str (add_counter key c m)"
proof (induction m)
  case Nil
  then show ?case by (simp add: counters_encodable_def)
next
  case (Cons kv m)
  obtain k cs where kv: "kv = (k, cs)"
    by (cases kv)
  from Cons.prems(1) have cs: "\<forall>x \<in> set cs. Marshal_value fin str (tc_Value x) \<noteq> None"
    and m: "counters_encodable fin str m"
    by (simp_all add: counters_encodable_def kv)
  show ?case
  proof (cases "k = key")
    case True
    with cs m Cons.prems(2) show ?thesis
      by (simp add: counters_encodable_def kv)
  next
    case False
    with cs Cons.IH[OF m Cons.prems(2)] show ?thesis
      by (simp add: counters_encodable_def kv)
  qed
qed

lemma fold_buildAccess_body_encodable:
  "counters_encodable fin str (Counters a) \<Longrightarrow>
   (\<And>kv. kv \<in> set kvs \<Longrightarrow> Marshal_value fin str (cv_Value (snd kv)) \<noteq> None) \<Longrightarrow>
   counters_encodable fin str (Counters (fold buildAccess_body kvs a))"
proof (induction kvs arbitrary: a)
  case Nil
  then show ?case by simp
next
  case (Cons kv kvs)
  have "counters_encodable fin str (Counters (buildAccess_body kv a))"
    using Cons.prems by (simp add: buildAccess_body_def Let_def add_counter_encodable)
  then show ?case
    using Cons.prems(2) by (simp add: Cons.IH)
qed

lemma Marshal_Counters_Some:
  assumes "counters_encodable fin str m"
  shows "\<exists>fields. Marshal_Counters fin str m = Some (JObject fields)"
proof -
  have inner: "\<exists>cs. those (map (Marshal_ToggleCounter fin str) (snd kv)) = Some cs"
    if "kv \<in> set m" for kv
  proof -
    have "Marshal_ToggleCounter fin str c \<noteq> None" if "c \<in> set (snd kv)" for c
      using assms \<open>kv \<in> set m\<close> that
      by (auto simp add: counters_encodable_def Marshal_ToggleCounter_def)
    from those_map_Some[of "snd kv" "Marshal_ToggleCounter fin str", OF this] show ?thesis
      by blast
  qed
  define f where "f = (\<lambda>kv :: string \<times> 'a ToggleCounter list.
      map_option (\<lambda>cs. (str (fst kv), JArray cs))
        (those (map (Marshal_ToggleCounter fin str) (snd kv))))"
  have "f kv \<noteq> None" if "kv \<in> set (sort_key fst m)" for kv
    using inner[of kv] that by (auto simp add: f_def)
  then obtain ys where "those (map f (sort_key fst m)) = Some ys"
    using those_map_Some[of "sort_key fst m" f] by blast
  then show ?thesis
    unfolding Marshal_Counters_def f_def by simp
qed

lemma Marshal_events_Some:
  assumes "\<And>ev. ev \<in> set events \<Longrightarrow> Marshal_value fin str (ev_Value ev) \<noteq> None"
  shows "\<exists>es. those (map (Marshal_AccessEvent fin str) events) = Some es
              \<and> length es = length events"
proof -
  have "Marshal_AccessEvent fin str ev \<noteq> None" if "ev \<in> set events" for ev
    using assms[OF that] by (auto simp add: Marshal_AccessEvent_def)
  from those_map_Some[of events "Marshal_AccessEvent fin str", OF this] show ?thesis .
qed

lemma Marshal_batch:
  assumes "events \<noteq> []"
    and "\<And>ev. ev \<in> set events \<Longrightarrow> Marshal_value fin str (ev_Value ev) \<noteq> None"
    and "\<And>m. mset (rng m) = mset m"
  shows "\<exists>packed es st en cs.
           buildPackedData lv rng events = Inr packed
         \<and> length es = length events
         \<and> Marshal fin str packed =
             Some (JArray [JObject [(''events'', JArray es),
                (''access'', JObject [(''startTime'', JInt st), (''endTime'', JInt en),
                                      (''counters'', JObject cs)])]])"
proof -
  from buildCounters_nonempty[OF assms(1,2), of lv] obtain cs st en where
    bc: "buildCounters lv events = Inr (cs, st, en)"
    and enc: "\<forall>kv \<in> set cs. Marshal_value fin str (cv_Value (snd kv)) \<noteq> None"
    by blast
  let ?a = "fold buildAccess_body (rng cs) \<lparr>StartTime = st, EndTime = en, Counters = []\<rparr>"
  have ba: "buildAccess lv rng events = Inr ?a"
    by (simp add: buildAccess_def bc)
  have "set (rng cs) = set cs"
    using assms(3) by (rule mset_eq_setD)
  then have "counters_encodable fin str (Counters ?a)"
    using enc by (intro fold_buildAccess_body_encodable) (simp_all add: counters_encodable_def)
  from Marshal_Counters_Some[OF this] obtain fields where
    mc: "Marshal_Counters fin str (Counters ?a) = Some (JObject fields)"
    by blast
  from Marshal_events_Some[OF assms(2)] obtain es where
    me: "those (map (Marshal_AccessEvent fin str) events) = Some es" "length es = length events"
    by blast
  have "Marshal fin str [\<lparr>Events = events, Access = ?a\<rparr>] =
      Some (JArray [JObject [(''events'', JArray es),
         (''access'', JObject [(''startTime'', JInt (sint (StartTime ?a))),
                               (''endTime'', JInt (sint (EndTime ?a))),
                               (''counters'', JObject fields)])]])"
    by (simp add: Marshal_def Marshal_PackedData_def Marshal_Access_def me mc)
  moreover have "buildPackedData lv rng events = Inr [\<lparr>Events = events, Access = ?a\<rparr>]"
    by (simp add: buildPackedData_def ba)
  ultimately show ?thesis
    using me(2) by blast
qed

text \<open>
  C4, as amended. The claim: the body of the POST is a single JSON object with the fields
  \<open>events\<close> and \<open>access\<close>, not an array. What holds: for a non-empty batch, a URL that
  \<open>http.NewRequest\<close> accepts and event values that JSON can write, \<open>doFlush\<close> empties the
  pending list and hands over one request whose body is a JSON array of exactly one
  object, with the fields \<open>events\<close> (one entry per event) and \<open>access\<close> (\<open>startTime\<close>,
  \<open>endTime\<close>, \<open>counters\<close>), in this order.
\<close>

theorem flush_posts_array_of_one_object:
  assumes "incomingEvents e \<noteq> []"
    and "env_valid_url env (eventsUrl e)"
    and "\<forall>ev \<in> set (incomingEvents e). Marshal_value (env_json_float env) (env_json_string env) (ev_Value ev) \<noteq> None"
    and "\<forall>m. mset (env_range_order env m) = mset m"
  shows "\<exists>es st en cs.
           length es = length (incomingEvents e)
         \<and> doFlush env e =
             Inr (e\<lparr>incomingEvents := [],
                    posted := posted e @
                      [\<lparr>req_url = eventsUrl e,
                        req_headers = [(''Authorization'', auth e),
                                       (''Content-Type'', ''application/json''),
                                       (''User-Agent'', ''Go/1.1.0'')],
                        req_body = Some (JArray [JObject [(''events'', JArray es),
                          (''access'', JObject [(''startTime'', JInt st), (''endTime'', JInt en),
                                                (''counters'', JObject cs)])]])\<rparr>]\<rparr>)"
proof -
  from Marshal_batch[where events="incomingEvents e" and fin="env_json_float env"
      and str="env_json_string env" and rng="env_range_order env" and lv="env_loopvar env"]
    assms(1,3,4)
  obtain packed es st en cs where
    p: "buildPackedData (env_loopvar env) (env_range_order env) (incomingEvents e) = Inr packed"
    and l: "length es = length (incomingEvents e)"
    and m: "Marshal (env_json_float env) (env_json_string env) packed =
             Some (JArray [JObject [(''events'', JArray es),
                (''access'', JObject [(''startTime'', JInt st), (''endTime'', JInt en),
                                      (''counters'', JObject cs)])]])"
    by blast
  have "doFlush env e =
      Inr (e\<lparr>incomingEvents := [],
             posted := posted e @
               [\<lparr>req_url = eventsUrl e,
                 req_headers = [(''Authorization'', auth e),
                                (''Content-Type'', ''application/json''),
                                (''User-Agent'', ''Go/1.1.0'')],
                 req_body = Some (JArray [JObject [(''events'', JArray es),
                   (''access'', JObject [(''startTime'', JInt st), (''endTime'', JInt en),
                                         (''counters'', JObject cs)])]])\<rparr>]\<rparr>)"
    using assms(1,2) by (simp add: doFlush_def Let_def p m USER_AGENT_def)
  with l show ?thesis by blast
qed

theorem flush_posts_array_of_one_object_witness:
  "incomingEvents (RecordAccess demo_event demo_recorder) \<noteq> []
   \<and> env_valid_url demo_env (eventsUrl (RecordAccess demo_event demo_recorder))
   \<and> (\<exists>es st en cs. length es = 1 \<and>
        map_sum id posted (doFlush demo_env (RecordAccess demo_event demo_recorder)) =
          Inr [\<lparr>req_url = ''http://localhost/api/events'',
                req_headers = [(''Authorization'', ''sdk-key''),
                               (''Content-Type'', ''application/json''),
                               (''User-Agent'', ''Go/1.1.0'')],
                req_body = Some (JArray [JObject [(''events'', JArray es),
                  (''access'', JObject [(''startTime'', JInt st), (''endTime'', JInt en),
                                        (''counters'', JObject cs)])]])\<rparr>])"
proof -
  let ?e = "RecordAccess demo_event demo_recorder"
  have h1: "incomingEvents ?e \<noteq> []"
    by (simp add: RecordAccess_def)
  have h2: "env_valid_url demo_env (eventsUrl ?e)"
    by (simp add: demo_env_def)
  have h3: "\<forall>ev \<in> set (incomingEvents ?e).
      Marshal_value (env_json_float demo_env) (env_json_string demo_env) (ev_Value ev) \<noteq> None"
    by (simp add: RecordAccess_def demo_recorder_def NewEventRecorder_def demo_event_def
        demo_env_def)
  have h4: "\<forall>m. mset (env_range_order demo_env m) = mset m"
    by (simp add: demo_env_def)
  from flush_posts_array_of_one_object[OF h1 h2 h3 h4] h1 h2 show ?thesis
    by (auto simp add: RecordAccess_def demo_recorder_def NewEventRecorder_def)
qed

text \<open>
  C4, the claim as stated fails: the body posted for a batch of one event is an array.
\<close>

theorem flush_body_is_an_array:
  "map_sum id (map req_body \<circ> posted) (doFlush demo_env (RecordAccess demo_event demo_recorder)) =
     Inr [Some (JArray [JObject
       [(''events'', JArray [JObject
           [(''time'', JInt 1000), (''key'', JString ''number_toggle''), (''value'', JFloat 2),
            (''index'', JInt 0), (''version'', JInt 0), (''reason'', JString ''default'')]]),
        (''access'', JObject
           [(''startTime'', JInt 1000), (''endTime'', JInt 1000),
            (''counters'', JObject [(''number_toggle'', JArray [JObject
               [(''value'', JFloat 2), (''version'', JInt 0), (''index'', JInt 0),
                (''count'', JInt 1)]])])])]])]"
  by (simp add: doFlush_def RecordAccess_def demo_recorder_def NewEventRecorder_def
      demo_event_def demo_env_def buildPackedData_def buildAccess_def buildCounters_def
      buildCounters_body_def buildAccess_body_def Let_def Marshal_def Marshal_PackedData_def
      Marshal_Access_def Marshal_Counters_def Marshal_ToggleCounter_def Marshal_AccessEvent_def)

end
